theory Spec2Isabelle
  imports Complex_Main "HOL-Library.AList"
begin

section \<open>Errors raised by the modelled code\<close>

text \<open>
  Every exception of the Python source that a modelled function can raise is a value.
  \<open>KeyError\<close> carries the message (or the key) it is raised with.
\<close>

datatype error =
    NotImplementedError
  | RuntimeError
  | KeyError string
  | IndexError
  | ValueError
  | ZeroDivisionError

section \<open>Tensor arithmetic\<close>

text \<open>
  The tensors of the learner hold 32-bit floating-point numbers, and every arithmetic
  operation on them rounds. The functions below therefore take the arithmetic as a
  parameter: the elementwise operations of the tensor library on entries of a type
  \<open>'a\<close>, with no law assumed of them. \<open>t_const\<close> converts a Python number that meets
  a tensor (such as \<open>0.0\<close> or a clamp parameter) to an entry, \<open>t_gt\<close> is the
  comparison \<open>>\<close> on entries, \<open>t_mean\<close> is \<open>mean\<close> over one row of the last
  dimension. What is proved for every arithmetic holds for the one of the library.
\<close>

record 'a arith =
  t_add :: "'a \<Rightarrow> 'a \<Rightarrow> 'a"
  t_sub :: "'a \<Rightarrow> 'a \<Rightarrow> 'a"
  t_mul :: "'a \<Rightarrow> 'a \<Rightarrow> 'a"
  t_exp :: "'a \<Rightarrow> 'a"
  t_gt :: "'a \<Rightarrow> 'a \<Rightarrow> bool"
  t_mean :: "'a list \<Rightarrow> 'a"
  t_const :: "real \<Rightarrow> 'a"

text \<open>Arithmetic without rounding, on real numbers.\<close>

definition exact :: "real arith" where
  "exact = \<lparr>t_add = (+), t_sub = (-), t_mul = (*), t_exp = exp, t_gt = (\<lambda>x y. x > y),
             t_mean = (\<lambda>xs. sum_list xs / real (length xs)), t_const = (\<lambda>x. x)\<rparr>"

text \<open>
  IEEE 754 binary32 in its normal and subnormal range: a real number is rounded to the
  nearest number with a 24-bit significand, ties to the even significand. Overflow to
  infinity and \<open>nan\<close> are not represented. \<open>float32\<close> rounds after every operation;
  its \<open>exp\<close> is the correctly rounded one and its \<open>mean\<close> adds from left to right.
\<close>

definition round_even :: "real \<Rightarrow> int" where
  "round_even y =
     (let f = \<lfloor>y\<rfloor>; d = y - of_int f
      in if d < 1 / 2 then f else if d > 1 / 2 then f + 1 else if even f then f else f + 1)"

definition float32_round :: "real \<Rightarrow> real" where
  "float32_round x =
     (if x = 0 then 0
      else let e = max (- 126) \<lfloor>log 2 \<bar>x\<bar>\<rfloor>;
               u = 2 powr (of_int e - 23)
           in u * of_int (round_even (x / u)))"

definition float32 :: "real arith" where
  "float32 =
     \<lparr>t_add = (\<lambda>x y. float32_round (x + y)),
      t_sub = (\<lambda>x y. float32_round (x - y)),
      t_mul = (\<lambda>x y. float32_round (x * y)),
      t_exp = (\<lambda>x. float32_round (exp x)),
      t_gt = (\<lambda>x y. x > y),
      t_mean = (\<lambda>xs. float32_round
                  (foldl (\<lambda>s x. float32_round (s + x)) 0 xs / real (length xs))),
      t_const = float32_round\<rparr>"

section \<open>V-trace returns (\<open>adept/learner/impala.py\<close>)\<close>

text \<open>
  \<open>ImpalaLearner._vtrace_returns\<close> works on tensors of shape \<open>[seq, batch]\<close>; the
  log-probability differences may carry a third dimension \<open>[seq, batch, actions]\<close>.
  Every operation of the function is elementwise in the batch dimension, so the model
  describes one batch column: a \<open>[seq, batch]\<close> tensor is the list of its entries along
  \<open>seq\<close>, \<open>estimated_value\<close> (shape \<open>[batch]\<close>) is one entry, and a tensor that
  may have either rank is a \<open>tensor\<close>. The two clamp parameters are Python numbers.
\<close>

datatype 'a tensor = Dim2 "'a list" | Dim3 "'a list list"

text \<open>Elementwise operations and elementwise tests on a tensor of either rank.\<close>

fun tensor_map :: "('a \<Rightarrow> 'a) \<Rightarrow> 'a tensor \<Rightarrow> 'a tensor" where
  "tensor_map f (Dim2 xs) = Dim2 (map f xs)"
| "tensor_map f (Dim3 rows) = Dim3 (map (map f) rows)"

fun tensor_all :: "('a \<Rightarrow> bool) \<Rightarrow> 'a tensor \<Rightarrow> bool" where
  "tensor_all P (Dim2 xs) = list_all P xs"
| "tensor_all P (Dim3 rows) = list_all (list_all P) rows"

text \<open>\<open>importance = torch.exp(log_prob_diffs)\<close>\<close>

definition tensor_exp :: "'a arith \<Rightarrow> 'a tensor \<Rightarrow> 'a tensor" where
  "tensor_exp A t = tensor_map (t_exp A) t"

text \<open>
  \<open>x.clamp(max=m)\<close>: entries greater than \<open>m\<close> become \<open>m\<close>, the others are kept.
\<close>

definition clamp_max :: "'a arith \<Rightarrow> real \<Rightarrow> 'a \<Rightarrow> 'a" where
  "clamp_max A m x = (if t_gt A x (t_const A m) then t_const A m else x)"

definition tensor_clamp :: "'a arith \<Rightarrow> 'a tensor \<Rightarrow> real \<Rightarrow> 'a tensor" where
  "tensor_clamp A t m = tensor_map (clamp_max A m) t"

text \<open>
  \<open>if clamped_importance_value.dim() == 3: clamped_importance_value =
  clamped_importance_value.mean(-1)\<close>
\<close>

fun mean_if_dim3 :: "'a arith \<Rightarrow> 'a tensor \<Rightarrow> 'a list" where
  "mean_if_dim3 A (Dim2 xs) = xs"
| "mean_if_dim3 A (Dim3 rows) = map (t_mean A) rows"

fun seq_len :: "'a tensor \<Rightarrow> nat" where
  "seq_len (Dim2 xs) = length xs"
| "seq_len (Dim3 rows) = length rows"

text \<open>
  The shapes the docstring asks for: the same \<open>seq\<close> length everywhere and, with a
  third dimension, the same positive number of actions at every step. The model does not
  describe broadcasting: for operands of other sizes it answers \<open>RuntimeError\<close> at the
  first elementwise operation, where the tensor library raises or, for a dimension of
  size one, broadcasts. The properties below are about the documented shapes.
\<close>

fun rectangular :: "'a tensor \<Rightarrow> bool" where
  "rectangular (Dim2 xs) = True"
| "rectangular (Dim3 rows) =
     (case rows of [] \<Rightarrow> True
      | r # rs \<Rightarrow> r \<noteq> [] \<and> list_all (\<lambda>r'. length r' = length r) rs)"

definition shapes_agree :: "'a tensor \<Rightarrow> 'a list \<Rightarrow> 'a list \<Rightarrow> 'a list \<Rightarrow> bool" where
  "shapes_agree log_prob_diffs discount_terminal_mask rewards values \<longleftrightarrow>
     rectangular log_prob_diffs \<and>
     seq_len log_prob_diffs = length values \<and>
     length discount_terminal_mask = length values \<and>
     length rewards = length values"

text \<open>
  \<open>values_t_plus_1 = torch.cat((values[1:], estimated_value.unsqueeze(0)))\<close>; the same
  shift is applied to \<open>v_s\<close> later.
\<close>

definition shift_bootstrap :: "'a list \<Rightarrow> 'a \<Rightarrow> 'a list" where
  "shift_bootstrap values estimated_value = tl values @ [estimated_value]"

text \<open>
  \<open>diff_value_per_step = clamped_importance_value * (rewards + discount_terminal_mask *
  values_t_plus_1 - values)\<close>
\<close>

definition diff_value_per_step ::
  "'a arith \<Rightarrow> 'a list \<Rightarrow> 'a list \<Rightarrow> 'a list \<Rightarrow> 'a list \<Rightarrow> 'a list \<Rightarrow> 'a list" where
  "diff_value_per_step A clamped_importance_value rewards discount_terminal_mask
       values_t_plus_1 values =
     map (\<lambda>i. t_mul A (clamped_importance_value ! i)
                (t_sub A (t_add A (rewards ! i)
                            (t_mul A (discount_terminal_mask ! i) (values_t_plus_1 ! i)))
                   (values ! i)))
         [0..<length values]"

text \<open>
  The body of the loop \<open>for i in reversed(range(diff_value_per_step.shape[0]))\<close>:
  \<open>nstep_v = diff_value_per_step[i] + discount_terminal_mask[i] *
  clamped_importance_value[i] * nstep_v\<close>. The state is \<open>nstep_v\<close>, which starts as
  the Python number \<open>0.0\<close>, and the list \<open>vs_minus_v_xs\<close> appended to.
\<close>

definition vtrace_step ::
  "'a arith \<Rightarrow> 'a list \<Rightarrow> 'a list \<Rightarrow> 'a list \<Rightarrow> nat \<Rightarrow> 'a \<times> 'a list \<Rightarrow> 'a \<times> 'a list" where
  "vtrace_step A diff discount_terminal_mask clamped_importance_value i st =
     (let nstep_v = t_add A (diff ! i)
            (t_mul A (t_mul A (discount_terminal_mask ! i) (clamped_importance_value ! i))
               (fst st))
      in (nstep_v, snd st @ [nstep_v]))"

definition vtrace_loop :: "'a arith \<Rightarrow> 'a list \<Rightarrow> 'a list \<Rightarrow> 'a list \<Rightarrow> 'a \<times> 'a list" where
  "vtrace_loop A diff discount_terminal_mask clamped_importance_value =
     fold (vtrace_step A diff discount_terminal_mask clamped_importance_value)
          (rev [0..<length diff]) (t_const A 0, [])"

text \<open>\<open>torch.stack\<close> refuses an empty list of tensors.\<close>

definition stack :: "'a list \<Rightarrow> error + 'a list" where
  "stack xs = (if xs = [] then Inl RuntimeError else Inr xs)"

text \<open>
  \<open>advantage = rewards + discount_terminal_mask * v_s_tp1 - values\<close>
\<close>

definition advantage :: "'a arith \<Rightarrow> 'a list \<Rightarrow> 'a list \<Rightarrow> 'a list \<Rightarrow> 'a list \<Rightarrow> 'a list" where
  "advantage A rewards discount_terminal_mask v_s_tp1 values =
     map (\<lambda>i. t_sub A (t_add A (rewards ! i) (t_mul A (discount_terminal_mask ! i) (v_s_tp1 ! i)))
                (values ! i))
         [0..<length values]"

text \<open>
  \<open>weighted_advantage = clamped_importance_pg * advantage\<close>, the advantage being
  unsqueezed (one copy per action) when the importance has three dimensions.
\<close>

fun weighted_advantage :: "'a arith \<Rightarrow> 'a tensor \<Rightarrow> 'a list \<Rightarrow> 'a tensor" where
  "weighted_advantage A (Dim2 xs) adv =
     Dim2 (map (\<lambda>i. t_mul A (xs ! i) (adv ! i)) [0..<length adv])"
| "weighted_advantage A (Dim3 rows) adv =
     Dim3 (map (\<lambda>i. map (\<lambda>x. t_mul A x (adv ! i)) (rows ! i)) [0..<length adv])"

definition vtrace_returns ::
  "'a arith \<Rightarrow> 'a tensor \<Rightarrow> 'a list \<Rightarrow> 'a list \<Rightarrow> 'a list \<Rightarrow> 'a \<Rightarrow> real \<Rightarrow> real \<Rightarrow>
   error + ('a list \<times> 'a tensor \<times> 'a tensor)" where
  "vtrace_returns A log_prob_diffs discount_terminal_mask rewards values estimated_value
       minimum_importance_value minimum_importance_policy =
     (let importance = tensor_exp A log_prob_diffs;
          clamped_importance_value =
            mean_if_dim3 A (tensor_clamp A importance minimum_importance_value);
          values_t_plus_1 = shift_bootstrap values estimated_value
      in if \<not> shapes_agree log_prob_diffs discount_terminal_mask rewards values
         then Inl RuntimeError
         else
           let diff = diff_value_per_step A clamped_importance_value rewards
                        discount_terminal_mask values_t_plus_1 values
           in if minimum_importance_policy \<noteq> 1 \<or> minimum_importance_value \<noteq> 1
              then Inl NotImplementedError
              else
                case stack (rev (snd (vtrace_loop A diff discount_terminal_mask
                                         clamped_importance_value))) of
                  Inl e \<Rightarrow> Inl e
                | Inr vs_minus_v_xs \<Rightarrow>
                    let v_s = map (\<lambda>i. t_add A (values ! i) (vs_minus_v_xs ! i))
                                [0..<length values];
                        clamped_importance_pg =
                          tensor_clamp A importance minimum_importance_policy;
                        v_s_tp1 = shift_bootstrap v_s estimated_value;
                        adv = advantage A rewards discount_terminal_mask v_s_tp1 values
                    in Inr (v_s, weighted_advantage A clamped_importance_pg adv, importance))"

text \<open>
  The value of \<open>nstep_v\<close> when the loop has gone from the last step down to step \<open>i\<close>:
  the quantity the proofs below follow through the loop.
\<close>

definition nstep_v_at :: "'a arith \<Rightarrow> 'a list \<Rightarrow> 'a list \<Rightarrow> 'a list \<Rightarrow> nat \<Rightarrow> 'a" where
  "nstep_v_at A diff discount_terminal_mask clamped_importance_value i =
     fst (fold (vtrace_step A diff discount_terminal_mask clamped_importance_value)
            (rev [i..<length diff]) (t_const A 0, []))"

text \<open>The log-probability differences of the final step, one per action.\<close>

fun final_step :: "'a tensor \<Rightarrow> 'a list" where
  "final_step (Dim2 xs) = [last xs]"
| "final_step (Dim3 rows) = last rows"

text \<open>
  The specification's n-step TD(0) bootstrapped returns, written from its words and not
  from the code: \<open>G[t] = reward[t] + discount_mask[t] * G[t+1]\<close>, where the return after
  the last step is the bootstrap value. They are stated in exact arithmetic.
\<close>

fun td_returns :: "real list \<Rightarrow> real list \<Rightarrow> real \<Rightarrow> real list" where
  "td_returns (r # rs) (m # ms) bootstrap =
     (let rest = td_returns rs ms bootstrap
      in (r + m * (case rest of [] \<Rightarrow> bootstrap | g # _ \<Rightarrow> g)) # rest)"
| "td_returns _ _ bootstrap = []"

text \<open>
  The vocabulary in which the properties below describe the outputs entry by entry, with
  the operations of the arithmetic only; none of it is used by the model above.
  \<open>clip1 A d\<close> is the importance ratio \<open>exp d\<close> with the ceiling \<open>1\<close>;
  \<open>ratio_value\<close> is the clamped ratio of step \<open>t\<close> that enters the value targets
  (the mean over the actions when there are several); \<open>next_of xs e t\<close> is the entry of
  \<open>xs\<close> after step \<open>t\<close>, or \<open>e\<close> after the last step; \<open>td_term\<close> is
  \<open>reward[t] + mask[t] * next - values[t]\<close>; \<open>ratio_at_least_one\<close> says that the
  importance ratio is \<open>1\<close> or more, and \<open>unit_ratio\<close> is what the clamped ratio of
  a step is then: \<open>1\<close>, or the mean of as many ones as there are actions.
\<close>

definition clip1 :: "'a arith \<Rightarrow> 'a \<Rightarrow> 'a" where
  "clip1 A d = (if t_gt A (t_exp A d) (t_const A 1) then t_const A 1 else t_exp A d)"

fun ratio_value :: "'a arith \<Rightarrow> 'a tensor \<Rightarrow> nat \<Rightarrow> 'a" where
  "ratio_value A (Dim2 ds) t = clip1 A (ds ! t)"
| "ratio_value A (Dim3 rows) t = t_mean A (map (clip1 A) (rows ! t))"

definition next_of :: "'a list \<Rightarrow> 'a \<Rightarrow> nat \<Rightarrow> 'a" where
  "next_of xs estimated_value t = (if Suc t < length xs then xs ! Suc t else estimated_value)"

definition td_term :: "'a arith \<Rightarrow> 'a list \<Rightarrow> 'a list \<Rightarrow> 'a list \<Rightarrow> 'a \<Rightarrow> 'a list \<Rightarrow> nat \<Rightarrow> 'a" where
  "td_term A r m v est xs t =
     t_sub A (t_add A (r ! t) (t_mul A (m ! t) (next_of xs est t))) (v ! t)"

definition ratio_at_least_one :: "'a arith \<Rightarrow> 'a \<Rightarrow> bool" where
  "ratio_at_least_one A d \<longleftrightarrow> t_gt A (t_exp A d) (t_const A 1) \<or> t_exp A d = t_const A 1"

definition unit_ratio :: "'a arith \<Rightarrow> 'a tensor \<Rightarrow> nat \<Rightarrow> 'a" where
  "unit_ratio A lpd t =
     (case lpd of
        Dim2 ds \<Rightarrow> t_const A 1
      | Dim3 rows \<Rightarrow> t_mean A (replicate (length (rows ! t)) (t_const A 1)))"

section \<open>Methods that mutate and may raise\<close>

text \<open>
  A Python method that has changed \<open>self\<close> before it raises leaves the change behind.
  Such a method returns the state it leaves together with the exception, if any.
\<close>

type_synonym 's outcome = "'s \<times> error option"

definition then_do :: "'s outcome \<Rightarrow> ('s \<Rightarrow> 's outcome) \<Rightarrow> 's outcome" where
  "then_do r f = (case snd r of None \<Rightarrow> f (fst r) | Some e \<Rightarrow> r)"

text \<open>\<open>for x in xs: body(x)\<close>, stopping at the first exception.\<close>

fun for_each :: "('a \<Rightarrow> 's \<Rightarrow> 's outcome) \<Rightarrow> 'a list \<Rightarrow> 's \<Rightarrow> 's outcome" where
  "for_each body [] s = (s, None)"
| "for_each body (x # xs) s = then_do (body x s) (for_each body xs)"

section \<open>The rollout cache (\<open>adept/expcaches/rollout.py\<close>)\<close>

text \<open>
  \<open>ACRollout\<close> is a dictionary from field names to Python lists, with two attributes.
  The dictionary is an association list in insertion order; what is stored in the lists
  (observations, reward tensors and so on) is opaque to the cache and has the type \<open>'v\<close>.
\<close>

record 'v ACRollout =
  entries :: "(string \<times> 'v list) list"
  nb_rollout :: int
  reward_normalizer :: "'v \<Rightarrow> 'v"

definition ACRollout_init :: "int \<Rightarrow> ('v \<Rightarrow> 'v) \<Rightarrow> 'v ACRollout" where
  "ACRollout_init nb_rollout' reward_normalizer' =
     \<lparr>entries = [(''states'', []), (''rewards'', []), (''terminals'', []),
                 (''values'', []), (''log_probs'', []), (''entropies'', [])],
      nb_rollout = nb_rollout',
      reward_normalizer = reward_normalizer'\<rparr>"

text \<open>\<open>self[k].append(v)\<close>: the lookup raises \<open>KeyError\<close> for a missing key.\<close>

definition append_to :: "string \<Rightarrow> 'v \<Rightarrow> 'v ACRollout \<Rightarrow> 'v ACRollout outcome" where
  "append_to k v s =
     (case map_of (entries s) k of
        None \<Rightarrow> (s, Some (KeyError k))
      | Some xs \<Rightarrow> (s\<lparr>entries := AList.update k (xs @ [v]) (entries s)\<rparr>, None))"

text \<open>
  \<open>write_forward(self, actions, experience)\<close>; \<open>experience\<close> is a dictionary, given as
  the list of its items in iteration order. \<open>actions\<close> is not used by the method.
\<close>

definition rollout_write_forward_item :: "string \<times> 'v \<Rightarrow> 'v ACRollout \<Rightarrow> 'v ACRollout outcome" where
  "rollout_write_forward_item kv s =
     (if map_of (entries s) (fst kv) = None
      then (s, Some (KeyError (''Incompatible rollout key: '' @ fst kv)))
      else append_to (fst kv) (snd kv) s)"

definition rollout_write_forward :: "(string \<times> 'v) list \<Rightarrow> 'v ACRollout \<Rightarrow> 'v ACRollout outcome" where
  "rollout_write_forward experience s = for_each rollout_write_forward_item experience s"

definition rollout_write_env :: "'v \<Rightarrow> 'v \<Rightarrow> 'v \<Rightarrow> 'v ACRollout \<Rightarrow> 'v ACRollout outcome" where
  "rollout_write_env obs rewards terminals s =
     (let rewards' = reward_normalizer s rewards
      in then_do (then_do (append_to ''states'' obs s)
                    (append_to ''rewards'' rewards'))
           (append_to ''terminals'' terminals))"

definition rollout_clear :: "'v ACRollout \<Rightarrow> 'v ACRollout" where
  "rollout_clear s = s\<lparr>entries := map (\<lambda>kv. (fst kv, [])) (entries s)\<rparr>"

text \<open>\<open>__len__\<close>: \<open>len(self['rewards'])\<close>.\<close>

definition rollout_len_of :: "'v ACRollout \<Rightarrow> error + nat" where
  "rollout_len_of s =
     (case map_of (entries s) ''rewards'' of
        None \<Rightarrow> Inl (KeyError ''rewards'')
      | Some xs \<Rightarrow> Inr (length xs))"

definition rollout_is_ready :: "'v ACRollout \<Rightarrow> error + bool" where
  "rollout_is_ready s =
     (case rollout_len_of s of
        Inl e \<Rightarrow> Inl e
      | Inr n \<Rightarrow> Inr (int n = nb_rollout s))"

text \<open>A run of consecutive \<open>write_env\<close> calls, one per \<open>(obs, rewards, terminals)\<close>.\<close>

definition rollout_write_envs :: "('v \<times> 'v \<times> 'v) list \<Rightarrow> 'v ACRollout \<Rightarrow> 'v ACRollout outcome" where
  "rollout_write_envs steps s =
     for_each (\<lambda>step. rollout_write_env (fst step) (fst (snd step)) (snd (snd step))) steps s"

text \<open>
  The states a cache can be in: built by the constructor and changed by its methods,
  whether they return or raise.
\<close>

inductive rollout_reachable :: "int \<Rightarrow> ('v \<Rightarrow> 'v) \<Rightarrow> 'v ACRollout \<Rightarrow> bool"
  for n :: int and f :: "'v \<Rightarrow> 'v" where
  reach_init: "rollout_reachable n f (ACRollout_init n f)"
| reach_write_env:
    "rollout_reachable n f s \<Longrightarrow>
     rollout_reachable n f (fst (rollout_write_env obs rewards terminals s))"
| reach_write_forward:
    "rollout_reachable n f s \<Longrightarrow> rollout_reachable n f (fst (rollout_write_forward experience s))"
| reach_clear: "rollout_reachable n f s \<Longrightarrow> rollout_reachable n f (rollout_clear s)"

text \<open>The field names the constructor declares, in its order.\<close>

definition declared_keys :: "string list" where
  "declared_keys =
     [''states'', ''rewards'', ''terminals'', ''values'', ''log_probs'', ''entropies'']"

section \<open>The replay cache (\<open>adept/expcaches/replay.py\<close>)\<close>

text \<open>
  \<open>ExperienceReplay\<close> is a dictionary from field names to numpy arrays of shape
  \<open>(rows, nb_env, ...)\<close>, with attributes. A row holds one number per environment
  (trailing dimensions are carried along unchanged by every operation and are left out);
  a row that \<open>np.empty\<close> allocated and nothing has written yet is \<open>None\<close>.
  Console output is not part of the model, except the line \<open>Cache miss\<close> by which
  \<open>read\<close> reports its synchronous path. The background thread is not modelled:
  each method is described on the state it finds.
\<close>

type_synonym row = "real list"
type_synonym array = "row option list"

text \<open>
  What \<open>take\<close> returns for one field has shape \<open>(batch, rollout_len)\<close>, what
  \<open>take_single\<close> returns has shape \<open>(batch)\<close>; an entry read from a row never
  written is \<open>None\<close>.
\<close>

datatype gathered = Windows "real option list list" | Singles "real option list"

type_synonym batch = "(string \<times> gathered) list"

record ExperienceReplay =
  arrays :: "(string \<times> array) list"
  nb_env :: nat
  max_len :: nat
  batch_size :: nat
  rollout_len :: nat
  min_length :: nat
  cached_rollout :: "batch list"
  max_cache :: nat
  current_index :: nat
  num_inserted :: nat
  printed :: "string list"

definition np_empty :: "nat \<Rightarrow> array" where
  "np_empty n = replicate n None"

text \<open>
  The constructor: \<open>self.max_len = max_len // nb_env\<close> raises for \<open>nb_env = 0\<close>; the
  two arrays allocated before keep \<open>max_len\<close> rows.
\<close>

definition ExperienceReplay_init :: "nat \<Rightarrow> nat \<Rightarrow> nat \<Rightarrow> nat \<Rightarrow> error + ExperienceReplay" where
  "ExperienceReplay_init nb_env' batch_size' rollout_len' max_len' =
     (if nb_env' = 0 then Inl ZeroDivisionError
      else Inr \<lparr>arrays = [(''rewards'', np_empty max_len'), (''terminals'', np_empty max_len')],
                nb_env = nb_env',
                max_len = max_len' div nb_env',
                batch_size = batch_size',
                rollout_len = rollout_len',
                min_length = 100,
                cached_rollout = [],
                max_cache = 5,
                current_index = 0,
                num_inserted = 0,
                printed = []\<rparr>)"

text \<open>
  \<open>arr[i] = v\<close> for a row index \<open>i\<close>: \<open>IndexError\<close> beyond the last row. A
  \<open>v\<close> with one entry per environment is stored as it is, a \<open>v\<close> with a single
  entry is broadcast to all environments, any other length is a \<open>ValueError\<close>.
\<close>

definition set_row :: "array \<Rightarrow> nat \<Rightarrow> nat \<Rightarrow> row \<Rightarrow> error + array" where
  "set_row arr i width v =
     (if length arr \<le> i then Inl IndexError
      else if length v = width then Inr (arr[i := Some v])
      else if length v = 1 then Inr (arr[i := Some (replicate width (hd v))])
      else Inl ValueError)"

text \<open>\<open>self[key][self._current_index] = v\<close>\<close>

definition store_row :: "string \<Rightarrow> row \<Rightarrow> ExperienceReplay \<Rightarrow> ExperienceReplay outcome" where
  "store_row key v s =
     (case map_of (arrays s) key of
        None \<Rightarrow> (s, Some (KeyError key))
      | Some arr \<Rightarrow>
          (case set_row arr (current_index s) (nb_env s) v of
             Inl e \<Rightarrow> (s, Some e)
           | Inr arr' \<Rightarrow> (s\<lparr>arrays := AList.update key arr' (arrays s)\<rparr>, None)))"

text \<open>
  \<open>if key not in self: self[key] = np.empty((self.max_len, self.nb_env, ) + v.shape[1:],
  dtype=v.dtype)\<close>
\<close>

definition create_if_missing :: "string \<Rightarrow> ExperienceReplay \<Rightarrow> ExperienceReplay" where
  "create_if_missing key s =
     (if map_of (arrays s) key = None
      then s\<lparr>arrays := AList.update key (np_empty (max_len s)) (arrays s)\<rparr>
      else s)"



text \<open>The observation loop of \<open>write_env\<close>: the key is \<open>'obs-{}'.format(k)\<close>.\<close>

definition write_obs_item :: "string \<times> row \<Rightarrow> ExperienceReplay \<Rightarrow> ExperienceReplay outcome" where
  "write_obs_item kv s =
     (let self_key = ''obs-'' @ fst kv
      in store_row self_key (snd kv) (create_if_missing self_key s))"

text \<open>
  \<open>self._current_index = (self._current_index + 1) % self.max_len\<close>, then
  \<open>self._num_inserted += 1\<close>
\<close>

definition advance :: "ExperienceReplay \<Rightarrow> ExperienceReplay outcome" where
  "advance s =
     (if max_len s = 0 then (s, Some ZeroDivisionError)
      else (s\<lparr>current_index := (current_index s + 1) mod max_len s,
              num_inserted := num_inserted s + 1\<rparr>, None))"

definition replay_write_env ::
  "(string \<times> row) list \<Rightarrow> row \<Rightarrow> row \<Rightarrow> ExperienceReplay \<Rightarrow> ExperienceReplay outcome" where
  "replay_write_env obs rewards terminals s =
     then_do (then_do (then_do (for_each write_obs_item obs s)
                         (store_row ''rewards'' rewards))
                (store_row ''terminals'' (map (\<lambda>t. 1 - t) terminals)))
       advance"

text \<open>A run of consecutive \<open>write_env\<close> calls.\<close>

definition replay_write_envs ::
  "((string \<times> row) list \<times> row \<times> row) list \<Rightarrow> ExperienceReplay \<Rightarrow> ExperienceReplay outcome" where
  "replay_write_envs steps s =
     for_each (\<lambda>step. replay_write_env (fst step) (fst (snd step)) (snd (snd step))) steps s"

definition replay_is_ready :: "ExperienceReplay \<Rightarrow> bool" where
  "replay_is_ready s \<longleftrightarrow> num_inserted s > min_length s"

text \<open>\<open>__len__\<close>\<close>

definition replay_len :: "ExperienceReplay \<Rightarrow> nat" where
  "replay_len s = min (num_inserted s) (max_len s)"

text \<open>
  \<open>np.random.randint(low, high, size=n)\<close> returns the empty array for \<open>n = 0\<close>
  and otherwise raises \<open>ValueError\<close> unless \<open>low < high\<close>. The generator is given
  by the raw numbers it draws, \<open>raw j\<close> for the \<open>j\<close>-th sample, reduced into the
  range; every value of the range can come out.
\<close>

definition randint :: "int \<Rightarrow> int \<Rightarrow> nat \<Rightarrow> (nat \<Rightarrow> nat) \<Rightarrow> error + int list" where
  "randint low high n raw =
     (if high \<le> low \<and> 0 < n then Inl ValueError
      else Inr (map (\<lambda>j. low + int (raw j mod nat (high - low))) [0..<n]))"

text \<open>\<open>values[i]\<close> on the first dimension; the indices met here are never negative.\<close>

definition get_row :: "array \<Rightarrow> int \<Rightarrow> error + row option" where
  "get_row values i =
     (if 0 \<le> i \<and> i < int (length values) then Inr (values ! nat i) else Inl IndexError)"

fun get_rows :: "array \<Rightarrow> int list \<Rightarrow> error + row option list" where
  "get_rows values [] = Inr []"
| "get_rows values (i # is) =
     (case get_row values i of
        Inl e \<Rightarrow> Inl e
      | Inr r \<Rightarrow> (case get_rows values is of Inl e \<Rightarrow> Inl e | Inr rs \<Rightarrow> Inr (r # rs)))"

text \<open>The entry of environment \<open>w\<close> in a row.\<close>

definition column :: "row option \<Rightarrow> int \<Rightarrow> real option" where
  "column r w = (case r of None \<Rightarrow> None | Some xs \<Rightarrow> Some (xs ! nat w))"

text \<open>
  \<open>take\<close>, on a numpy array (the last branch of the method): the rows at
  \<open>flat_indexes\<close>, reshaped to \<open>(batch_size, rollout_len, nb_env)\<close>, of which sample
  \<open>b\<close> keeps the column \<open>worker_inds[b]\<close>. \<open>sliced_v[0]\<close> raises on an empty list.
\<close>

definition take_values :: "ExperienceReplay \<Rightarrow> array \<Rightarrow> int list \<Rightarrow> int list \<Rightarrow> error + gathered" where
  "take_values s values flat_indexes worker_inds =
     (case get_rows values flat_indexes of
        Inl e \<Rightarrow> Inl e
      | Inr sliced_v \<Rightarrow>
          if sliced_v = [] then Inl IndexError
          else Inr (Windows
                 (map (\<lambda>b. map (\<lambda>t. column (sliced_v ! (b * rollout_len s + t)) (worker_inds ! b))
                              [0..<rollout_len s])
                      [0..<batch_size s])))"

definition take_single :: "ExperienceReplay \<Rightarrow> array \<Rightarrow> int list \<Rightarrow> int list \<Rightarrow> error + gathered" where
  "take_single s values inds worker_inds =
     (case get_rows values inds of
        Inl e \<Rightarrow> Inl e
      | Inr sliced_v \<Rightarrow>
          if sliced_v = [] then Inl IndexError
          else Inr (Singles
                 (map (\<lambda>b. column (sliced_v ! b) (worker_inds ! b)) [0..<batch_size s])))"

text \<open>
  The first lines of \<open>_read\<close>: \<open>max_ind = len(self) - 2 - self.rollout_len\<close>,
  \<open>start_indexes = np.random.randint(0, max_ind, size=self.batch_size)\<close>,
  \<open>end_indexes = start_indexes + self.rollout_len\<close>.
\<close>

definition max_ind :: "ExperienceReplay \<Rightarrow> int" where
  "max_ind s = int (replay_len s) - 2 - int (rollout_len s)"

definition start_indexes :: "ExperienceReplay \<Rightarrow> (nat \<Rightarrow> nat) \<Rightarrow> error + int list" where
  "start_indexes s raw = randint 0 (max_ind s) (batch_size s) raw"

definition end_indexes :: "ExperienceReplay \<Rightarrow> int list \<Rightarrow> int list" where
  "end_indexes s starts = map (\<lambda>st. st + int (rollout_len s)) starts"

text \<open>
  \<open>flat_indexes = np.array([np.arange(s_ind, e_ind) for s_ind, e_ind in
  zip(start_indexes, end_indexes)]).ravel()\<close>
\<close>

definition flat_indexes :: "int list \<Rightarrow> int list \<Rightarrow> int list" where
  "flat_indexes starts ends = concat (map (\<lambda>se. [fst se..snd se - 1]) (zip starts ends))"

text \<open>The dictionary comprehension of \<open>_read\<close> over \<open>self.items()\<close>.\<close>

fun take_all ::
  "ExperienceReplay \<Rightarrow> (string \<times> array) list \<Rightarrow> int list \<Rightarrow> int list \<Rightarrow> error + batch" where
  "take_all s [] flat env_ind = Inr []"
| "take_all s (kv # kvs) flat env_ind =
     (case take_values s (snd kv) flat env_ind of
        Inl e \<Rightarrow> Inl e
      | Inr g \<Rightarrow>
          (case take_all s kvs flat env_ind of
             Inl e \<Rightarrow> Inl e
           | Inr rest \<Rightarrow> Inr ((fst kv, g) # rest)))"

text \<open>\<open>self[key]\<close> on the cache itself.\<close>

definition lookup_array :: "ExperienceReplay \<Rightarrow> string \<Rightarrow> error + array" where
  "lookup_array s key =
     (case map_of (arrays s) key of None \<Rightarrow> Inl (KeyError key) | Some arr \<Rightarrow> Inr arr)"

text \<open>
  \<open>namedtuple(typename, field_names)\<close> raises \<open>ValueError\<close> for a field name that is
  not an identifier, is a keyword or starts with an underscore (names are ASCII here; the
  keys of a dictionary are distinct already).
\<close>

definition letters :: string where
  "letters = ''abcdefghijklmnopqrstuvwxyzABCDEFGHIJKLMNOPQRSTUVWXYZ''"

definition digits :: string where
  "digits = ''0123456789''"

definition python_keywords :: "string list" where
  "python_keywords =
     [''False'', ''None'', ''True'', ''and'', ''as'', ''assert'', ''async'', ''await'',
      ''break'', ''class'', ''continue'', ''def'', ''del'', ''elif'', ''else'', ''except'',
      ''finally'', ''for'', ''from'', ''global'', ''if'', ''import'', ''in'', ''is'',
      ''lambda'', ''nonlocal'', ''not'', ''or'', ''pass'', ''raise'', ''return'', ''try'',
      ''while'', ''with'', ''yield'']"

definition field_name_ok :: "string \<Rightarrow> bool" where
  "field_name_ok name \<longleftrightarrow>
     (case name of
        [] \<Rightarrow> False
      | c # cs \<Rightarrow>
          c \<in> set letters \<and>
          list_all (\<lambda>c'. c' \<in> set letters \<or> c' \<in> set digits \<or> c' = CHR ''_'') cs) \<and>
     name \<notin> set python_keywords"

definition namedtuple :: "batch \<Rightarrow> error + batch" where
  "namedtuple rollout =
     (if list_all (\<lambda>kv. field_name_ok (fst kv)) rollout then Inr rollout else Inl ValueError)"

text \<open>
  \<open>_read\<close> (a name cannot start with an underscore here, hence \<open>read_sync\<close>:
  the synchronous read), with the raw numbers of its two draws. The two last fields are read at
  \<open>end_indexes + 1\<close> from the keys \<open>'obs'\<close> and \<open>'internals'\<close>; the result is
  the named tuple made of the dictionary.
\<close>

definition read_sync :: "ExperienceReplay \<Rightarrow> (nat \<Rightarrow> nat) \<Rightarrow> (nat \<Rightarrow> nat) \<Rightarrow> error + batch" where
  "read_sync s raw_start raw_env =
     (case start_indexes s raw_start of
        Inl e \<Rightarrow> Inl e
      | Inr starts \<Rightarrow>
          let ends = end_indexes s starts;
              flat = flat_indexes starts ends
          in (case randint 0 (int (nb_env s)) (batch_size s) raw_env of
                Inl e \<Rightarrow> Inl e
              | Inr env_ind \<Rightarrow>
                  (case take_all s (arrays s) flat env_ind of
                     Inl e \<Rightarrow> Inl e
                   | Inr rollout \<Rightarrow>
                       (case lookup_array s ''obs'' of
                          Inl e \<Rightarrow> Inl e
                        | Inr obs \<Rightarrow>
                            (case take_single s obs (map (\<lambda>e. e + 1) ends) env_ind of
                               Inl e \<Rightarrow> Inl e
                             | Inr last_obs \<Rightarrow>
                                 (case lookup_array s ''internals'' of
                                    Inl e \<Rightarrow> Inl e
                                  | Inr internals \<Rightarrow>
                                      (case take_single s internals (map (\<lambda>e. e + 1) ends)
                                              env_ind of
                                         Inl e \<Rightarrow> Inl e
                                       | Inr last_internals \<Rightarrow>
                                           namedtuple
                                             (AList.update ''last_internals'' last_internals
                                                (AList.update ''last_obs'' last_obs
                                                   rollout)))))))))"

text \<open>
  \<open>read\<close>: \<open>if len(self._cached_rollout) > 1: return self._cached_rollout.pop(0)\<close>,
  else \<open>print('Cache miss')\<close> and \<open>return self._read()\<close>.
\<close>

definition read :: "ExperienceReplay \<Rightarrow> (nat \<Rightarrow> nat) \<Rightarrow> (nat \<Rightarrow> nat) \<Rightarrow>
    (error + batch) \<times> ExperienceReplay" where
  "read s raw_start raw_env =
     (if length (cached_rollout s) > 1
      then (Inr (hd (cached_rollout s)), s\<lparr>cached_rollout := tl (cached_rollout s)\<rparr>)
      else (read_sync (s\<lparr>printed := printed s @ [''Cache miss'']\<rparr>) raw_start raw_env,
            s\<lparr>printed := printed s @ [''Cache miss'']\<rparr>))"

text \<open>
  Two conditions used by the properties below. \<open>arrays_ok C A\<close>: every array of the
  dictionary \<open>A\<close> has at least \<open>C\<close> rows, and the two arrays of the constructor are
  there. \<open>step_fits n\<close>: every row among the arguments of one \<open>write_env\<close> call
  has one entry per environment, or a single entry to broadcast.
\<close>

definition arrays_ok :: "nat \<Rightarrow> (string \<times> array) list \<Rightarrow> bool" where
  "arrays_ok C A \<longleftrightarrow>
     (\<forall>k arr. map_of A k = Some arr \<longrightarrow> C \<le> length arr) \<and>
     map_of A ''rewards'' \<noteq> None \<and> map_of A ''terminals'' \<noteq> None"

definition row_fits :: "nat \<Rightarrow> row \<Rightarrow> bool" where
  "row_fits n v \<longleftrightarrow> length v = n \<or> length v = 1"

definition step_fits :: "nat \<Rightarrow> (string \<times> row) list \<times> row \<times> row \<Rightarrow> bool" where
  "step_fits n step \<longleftrightarrow>
     list_all (\<lambda>kv. row_fits n (snd kv)) (fst step) \<and>
     row_fits n (fst (snd step)) \<and> row_fits n (snd (snd step))"

section \<open>The learner container (\<open>adept/container/workerlearner.py\<close>)\<close>

text \<open>
  Of \<open>Learner.__init__\<close> the model keeps what decides the number of learn batches:
  the process groups, the sizes taken from the arguments and the warning. Process-group
  creation, the environment, the network and the optimizer are external; a group handle
  is the pair of ranks it was created for, and the warnings sent to the logger are
  collected in \<open>warnings\<close>. The attributes \<open>batch_size\<close> and \<open>nb_env\<close> carry the
  prefix \<open>learner_\<close>, since the replay cache has fields of the same names.
\<close>

record Learner =
  groups :: "(int \<times> (int \<times> int)) list"
  learner_batch_size :: int
  nb_learn_batch :: int
  learner_nb_env :: int
  nb_worker :: int
  nb_worker_exps :: nat
  warnings :: "string list"

text \<open>\<open>str\<close> of a natural number, as \<open>format\<close> prints it.\<close>

fun str_nat :: "nat \<Rightarrow> string" where
  "str_nat n =
     (if n < 10 then [''0123456789'' ! n]
      else str_nat (n div 10) @ [''0123456789'' ! (n mod 10)])"

text \<open>
  \<open>for learner_rank in learner_ranks: for worker_rank in worker_ranks:
  g = dist.new_group([learner_rank, worker_rank]);
  if learner_rank == rank: groups[worker_rank] = g\<close>
\<close>

definition build_groups :: "int \<Rightarrow> int list \<Rightarrow> int list \<Rightarrow> (int \<times> (int \<times> int)) list" where
  "build_groups rank learner_ranks worker_ranks =
     fold (\<lambda>learner_rank gs.
             fold (\<lambda>worker_rank gs'.
                     if learner_rank = rank
                     then AList.update worker_rank (learner_rank, worker_rank) gs'
                     else gs')
                  worker_ranks gs)
          learner_ranks []"

text \<open>
  \<open>self.worker_exps\<close> has \<open>range(args.nb_learn_batch)\<close> entries; only their number is
  kept. The last step is the comparison with the worker count.
\<close>

definition Learner_init :: "int \<Rightarrow> int \<Rightarrow> int \<Rightarrow> int list \<Rightarrow> int list \<Rightarrow> Learner" where
  "Learner_init args_nb_env args_nb_learn_batch rank learner_ranks worker_ranks =
     (let groups' = build_groups rank learner_ranks worker_ranks;
          self = \<lparr>groups = groups',
                  learner_batch_size = args_nb_env * args_nb_learn_batch,
                  nb_learn_batch = args_nb_learn_batch,
                  learner_nb_env = args_nb_env,
                  nb_worker = int (length groups'),
                  nb_worker_exps = nat args_nb_learn_batch,
                  warnings = []\<rparr>
      in if nb_learn_batch self > nb_worker self
         then self\<lparr>warnings := warnings self @
                      [''More learn batches than workers, reducing learn batches to '' @
                       str_nat (nat (nb_worker self))],
                    nb_learn_batch := nb_worker self\<rparr>
         else self)"

section \<open>Properties of the V-trace returns\<close>

subsection \<open>Rounding to 32 bits\<close>

lemma float32_round_eval:
  assumes "2 powr of_int e \<le> \<bar>x\<bar>" and "\<bar>x\<bar> < 2 powr (of_int e + 1)" and "- 126 \<le> e"
  shows "float32_round x =
           2 powr (of_int e - 23) * of_int (round_even (x / 2 powr (of_int e - 23)))"
proof -
  have pos: "0 < \<bar>x\<bar>"
    using assms(1) powr_gt_zero [of 2 "of_int e"] by linarith
  then have "\<lfloor>log 2 \<bar>x\<bar>\<rfloor> = e"
    using assms(1,2) by (simp add: floor_log_eq_powr_iff)
  with pos assms(3) show ?thesis
    by (simp add: float32_round_def Let_def max_def)
qed

lemma fl_1: "float32_round 1 = 1"
  using float32_round_eval [of 0 1] by (simp add: round_even_def powr_minus)

lemma fl_half: "float32_round (1 / 2) = 1 / 2"
  using float32_round_eval [of "- 1" "1 / 2"] by (simp add: round_even_def powr_minus)

lemma fl_3_2: "float32_round (3 / 2) = 3 / 2"
  using float32_round_eval [of 0 "3 / 2"] by (simp add: round_even_def powr_minus)

lemma fl_big: "float32_round (- 100000000) = - 100000000"
  using float32_round_eval [of 26 "- 100000000"] by (simp add: round_even_def)

lemma fl_big_minus: "float32_round (- (199999997 / 2)) = - 100000000"
  using float32_round_eval [of 26 "- (199999997 / 2)"] by (simp add: round_even_def)

lemma round_even_bounds: "\<lfloor>y\<rfloor> \<le> round_even y \<and> round_even y \<le> \<lfloor>y\<rfloor> + 1"
  by (simp add: round_even_def Let_def)

lemma float32_round_le_pow2:
  assumes "0 < x" and "x \<le> 2 powr of_int k" and "- 125 \<le> k"
  shows "0 \<le> float32_round x \<and> float32_round x \<le> 2 powr of_int k"
proof -
  define e where "e = max (- 126) \<lfloor>log 2 \<bar>x\<bar>\<rfloor>"
  define u :: real where "u = 2 powr (of_int e - 23)"
  have u: "0 < u" by (simp add: u_def)
  have fl: "float32_round x = u * of_int (round_even (x / u))"
    using assms(1) by (simp add: float32_round_def Let_def e_def u_def)
  have "0 \<le> x / u" using assms(1) u by simp
  then have "0 \<le> \<lfloor>x / u\<rfloor>" by simp
  with round_even_bounds [of "x / u"] have "0 \<le> round_even (x / u)" by linarith
  with u have nonneg: "0 \<le> float32_round x" by (simp add: fl)
  have "log 2 x \<le> of_int k"
    using assms(1,2) by (simp add: log_le_iff)
  then have flk: "\<lfloor>log 2 \<bar>x\<bar>\<rfloor> \<le> k"
    using assms(1) by (simp add: floor_le_iff)
  have upper: "float32_round x \<le> 2 powr of_int k"
  proof (cases "x = 2 powr of_int k")
    case True
    then have "\<lfloor>log 2 \<bar>x\<bar>\<rfloor> = k" by simp
    with assms(3) have "e = k" by (simp add: e_def)
    then have "x / u = 2 powr 23"
      by (simp add: True u_def powr_diff)
    then have "round_even (x / u) = 8388608"
      by (simp add: round_even_def)
    then show ?thesis
      using \<open>e = k\<close> by (simp add: fl u_def powr_diff)
  next
    case False
    with assms(2) have lt: "x < 2 powr of_int k" by simp
    then have "log 2 x < of_int k"
      using assms(1) by (simp add: log_less_iff)
    then have "\<lfloor>log 2 \<bar>x\<bar>\<rfloor> < k"
      using assms(1) by (simp add: floor_less_iff)
    with assms(3) have ek: "e < k" by (simp add: e_def)
    define N :: int where "N = 2 ^ nat (k - e + 23)"
    have Nr: "real_of_int N = 2 powr (of_int k - (of_int e - 23))"
    proof -
      have "2 powr (of_int k - (of_int e - 23)) = 2 powr real (nat (k - e + 23))"
        using ek by (simp add: algebra_simps)
      also have "\<dots> = 2 ^ nat (k - e + 23)"
        by (simp add: powr_realpow)
      finally show ?thesis by (simp add: N_def)
    qed
    have uN: "u * of_int N = 2 powr of_int k"
      by (simp add: Nr u_def powr_add [symmetric])
    have "x / u < of_int N"
      using lt u uN by (simp add: divide_less_eq mult.commute)
    then have "\<lfloor>x / u\<rfloor> < N" by (simp add: floor_less_iff)
    with round_even_bounds [of "x / u"] have "round_even (x / u) \<le> N" by linarith
    then have "of_int (round_even (x / u)) \<le> (of_int N :: real)" by simp
    then have "float32_round x \<le> u * of_int N"
      using u by (simp add: fl)
    also have "\<dots> = 2 powr of_int k"
      by (rule uN)
    finally show ?thesis .
  qed
  from nonneg upper show ?thesis by simp
qed

lemma float32_round_0 [simp]: "float32_round 0 = 0"
  by (simp add: float32_round_def)

lemma float32_round_nonneg_le_pow2:
  assumes "0 \<le> x" and "x \<le> 2 powr of_int k" and "- 125 \<le> k"
  shows "0 \<le> float32_round x \<and> float32_round x \<le> 2 powr of_int k"
proof (cases "x = 0")
  case True
  then show ?thesis by simp
next
  case False
  with assms(1) have "0 < x" by simp
  from float32_round_le_pow2 [OF this assms(2,3)] show ?thesis .
qed

lemma fl_2: "float32_round 2 = 2"
  using float32_round_eval [of 1 2] by (simp add: round_even_def powr_minus)

lemma fl_3: "float32_round 3 = 3"
  using float32_round_eval [of 1 3] by (simp add: round_even_def powr_minus)

lemma exp_minus_one_le_half: "exp (- 1 :: real) \<le> 1 / 2"
proof -
  have "(2::real) \<le> exp 1"
    using exp_ge_add_one_self [of "1::real"] by simp
  then show ?thesis
    by (simp add: exp_minus divide_simps)
qed

lemma fl_exp_minus_one:
  "0 \<le> float32_round (exp (- 1)) \<and> float32_round (exp (- 1)) \<le> 1 / 2"
  using float32_round_nonneg_le_pow2 [of "exp (- 1)" "- 1"] exp_minus_one_le_half
  by (simp add: powr_minus)

lemma fl_chain_le_2:
  assumes "0 \<le> x" and "x \<le> 2"
  shows "0 \<le> float32_round x \<and> float32_round x \<le> 2"
  using float32_round_nonneg_le_pow2 [of x 1] assms by simp

subsection \<open>The backward loop\<close>

lemma fold_rev_upt_step:
  "i < n \<Longrightarrow> fold f (rev [i..<n]) s = f i (fold f (rev [Suc i..<n]) s)"
  by (simp add: upt_conv_Cons)

lemma nstep_v_at_end: "nstep_v_at A d m c (length d) = t_const A 0"
  by (simp add: nstep_v_at_def)

lemma nstep_v_at_step:
  "i < length d \<Longrightarrow>
   nstep_v_at A d m c i =
     t_add A (d ! i) (t_mul A (t_mul A (m ! i) (c ! i)) (nstep_v_at A d m c (Suc i)))"
  by (simp add: nstep_v_at_def fold_rev_upt_step vtrace_step_def Let_def)

lemma snd_fold_vtrace_step:
  "k \<le> length d \<Longrightarrow>
   snd (fold (vtrace_step A d m c) (rev [k..<length d]) (t_const A 0, [])) =
   map (nstep_v_at A d m c) (rev [k..<length d])"
proof (induction "length d - k" arbitrary: k)
  case 0
  then show ?case by simp
next
  case (Suc n)
  then have lt: "k < length d" and n: "n = length d - Suc k" by simp_all
  have ih: "snd (fold (vtrace_step A d m c) (rev [Suc k..<length d]) (t_const A 0, [])) =
            map (nstep_v_at A d m c) (rev [Suc k..<length d])"
    using Suc.hyps(1) [OF n] lt by simp
  show ?case
    using lt ih
    by (simp add: fold_rev_upt_step upt_conv_Cons vtrace_step_def Let_def nstep_v_at_def)
qed

lemma vtrace_loop_rev:
  "rev (snd (vtrace_loop A d m c)) = map (nstep_v_at A d m c) [0..<length d]"
  by (simp add: vtrace_loop_def snd_fold_vtrace_step rev_map)

lemma length_diff_value_per_step [simp]:
  "length (diff_value_per_step A c r m v1 v) = length v"
  by (simp add: diff_value_per_step_def)

lemma vtrace_returns_success:
  fixes A :: "'a arith" and est :: 'a
  assumes shapes: "shapes_agree lpd m r v" and nonempty: "v \<noteq> []"
  defines "c \<equiv> mean_if_dim3 A (tensor_clamp A (tensor_exp A lpd) 1)"
  defines "d \<equiv> diff_value_per_step A c r m (shift_bootstrap v est) v"
  defines "v_s \<equiv> map (\<lambda>i. t_add A (v ! i) (nstep_v_at A d m c i)) [0..<length v]"
  shows "vtrace_returns A lpd m r v est 1 1 =
         Inr (v_s,
              weighted_advantage A (tensor_clamp A (tensor_exp A lpd) 1)
                (advantage A r m (shift_bootstrap v_s est) v),
              tensor_exp A lpd)"
proof -
  have len: "length d = length v"
    by (simp add: d_def)
  have loop: "rev (snd (vtrace_loop A d m c)) = map (nstep_v_at A d m c) [0..<length v]"
    by (simp add: vtrace_loop_rev len)
  have stacked: "stack (rev (snd (vtrace_loop A d m c))) =
                 Inr (map (nstep_v_at A d m c) [0..<length v])"
    using nonempty by (simp add: stack_def loop)
  have vs: "map (\<lambda>i. t_add A (v ! i) (map (nstep_v_at A d m c) [0..<length v] ! i))
              [0..<length v] = v_s"
    by (simp add: v_s_def)
  show ?thesis
    using shapes
    by (simp add: vtrace_returns_def Let_def stacked vs
        c_def [symmetric] d_def [symmetric])
qed


lemma shift_bootstrap_next_of:
  "t < length v \<Longrightarrow> shift_bootstrap v est ! t = next_of v est t"
  by (cases v) (auto simp: shift_bootstrap_def next_of_def nth_append)

lemma clamp_max_exp_clip1: "clamp_max A 1 (t_exp A d) = clip1 A d"
  by (simp add: clamp_max_def clip1_def)

lemma clamped_importance_ratio_value:
  "t < seq_len lpd \<Longrightarrow>
   mean_if_dim3 A (tensor_clamp A (tensor_exp A lpd) 1) ! t = ratio_value A lpd t"
  by (cases lpd)
     (simp_all add: tensor_clamp_def tensor_exp_def clamp_max_exp_clip1 comp_def)

lemma clamped_importance_pg_Dim2:
  "tensor_clamp A (tensor_exp A (Dim2 ds)) 1 = Dim2 (map (clip1 A) ds)"
  by (simp add: tensor_clamp_def tensor_exp_def clamp_max_exp_clip1 comp_def)

lemma clamped_importance_pg_Dim3:
  "tensor_clamp A (tensor_exp A (Dim3 rows)) 1 = Dim3 (map (map (clip1 A)) rows)"
  by (simp add: tensor_clamp_def tensor_exp_def clamp_max_exp_clip1 comp_def)

lemma vtrace_returns_elementwise:
  assumes shapes: "shapes_agree lpd m r v" and nonempty: "v \<noteq> []"
  shows "\<exists>v_s w imp n.
           vtrace_returns A lpd m r v est 1 1 = Inr (v_s, w, imp) \<and>
           length v_s = length v \<and> length n = Suc (length v) \<and>
           n ! length v = t_const A 0 \<and>
           (\<forall>t<length v.
              n ! t = t_add A (t_mul A (ratio_value A lpd t) (td_term A r m v est v t))
                        (t_mul A (t_mul A (m ! t) (ratio_value A lpd t)) (n ! Suc t))) \<and>
           (\<forall>t<length v. v_s ! t = t_add A (v ! t) (n ! t)) \<and>
           imp = tensor_map (t_exp A) lpd \<and>
           w = (case lpd of
                  Dim2 ds \<Rightarrow>
                    Dim2 (map (\<lambda>t. t_mul A (clip1 A (ds ! t)) (td_term A r m v est v_s t))
                            [0..<length v])
                | Dim3 rows \<Rightarrow>
                    Dim3 (map (\<lambda>t. map (\<lambda>d. t_mul A (clip1 A d) (td_term A r m v est v_s t))
                                      (rows ! t))
                            [0..<length v]))"
proof -
  define c where "c = mean_if_dim3 A (tensor_clamp A (tensor_exp A lpd) 1)"
  define d where "d = diff_value_per_step A c r m (shift_bootstrap v est) v"
  define n where "n = map (nstep_v_at A d m c) [0..<Suc (length v)]"
  define v_s where "v_s = map (\<lambda>i. t_add A (v ! i) (nstep_v_at A d m c i)) [0..<length v]"
  define w where "w = weighted_advantage A (tensor_clamp A (tensor_exp A lpd) 1)
                (advantage A r m (shift_bootstrap v_s est) v)"
  have lens: "length r = length v" "length m = length v" "seq_len lpd = length v"
    using shapes by (simp_all add: shapes_agree_def)
  have lend: "length d = length v" by (simp add: d_def)
  have ret: "vtrace_returns A lpd m r v est 1 1 = Inr (v_s, w, tensor_exp A lpd)"
    unfolding v_s_def d_def c_def w_def by (rule vtrace_returns_success [OF shapes nonempty])
  have len_vs: "length v_s = length v" by (simp add: v_s_def)
  have nth_n: "n ! t = nstep_v_at A d m c t" if "t \<le> length v" for t
  proof -
    have "t < length [0..<Suc (length v)]" using that by simp
    then have "n ! t = nstep_v_at A d m c ([0..<Suc (length v)] ! t)"
      unfolding n_def by (rule nth_map)
    also have "[0..<Suc (length v)] ! t = t"
      using that by (metis add_0 le_imp_less_Suc nth_upt)
    finally show ?thesis .
  qed
  have c_nth: "c ! t = ratio_value A lpd t" if "t < length v" for t
    unfolding c_def using that lens by (simp add: clamped_importance_ratio_value)
  have d_nth: "d ! t = t_mul A (ratio_value A lpd t) (td_term A r m v est v t)"
    if "t < length v" for t
    using that by (simp add: d_def diff_value_per_step_def c_nth td_term_def
        shift_bootstrap_next_of)
  have n_end: "n ! length v = t_const A 0"
    using nstep_v_at_end [of A d m c] by (simp add: nth_n lend)
  have n_step: "n ! t = t_add A (t_mul A (ratio_value A lpd t) (td_term A r m v est v t))
                        (t_mul A (t_mul A (m ! t) (ratio_value A lpd t)) (n ! Suc t))"
    if "t < length v" for t
    using that nstep_v_at_step [of t d A m c]
    by (simp add: nth_n lend d_nth c_nth)
  have vs_nth: "v_s ! t = t_add A (v ! t) (n ! t)" if "t < length v" for t
    using that by (simp add: v_s_def nth_n)
  have adv_nth: "advantage A r m (shift_bootstrap v_s est) v ! t = td_term A r m v est v_s t"
    if "t < length v" for t
    using that len_vs by (simp add: advantage_def td_term_def shift_bootstrap_next_of)
  have len_adv: "length (advantage A r m (shift_bootstrap v_s est) v) = length v"
    by (simp add: advantage_def)
  have w_eq: "w = (case lpd of
                  Dim2 ds \<Rightarrow>
                    Dim2 (map (\<lambda>t. t_mul A (clip1 A (ds ! t)) (td_term A r m v est v_s t))
                            [0..<length v])
                | Dim3 rows \<Rightarrow>
                    Dim3 (map (\<lambda>t. map (\<lambda>d. t_mul A (clip1 A d) (td_term A r m v est v_s t))
                                      (rows ! t))
                            [0..<length v]))"
  proof (cases lpd)
    case (Dim2 ds)
    with lens have "length ds = length v" by simp
    then show ?thesis
      unfolding w_def Dim2
      by (simp add: clamped_importance_pg_Dim2 len_adv adv_nth)
  next
    case (Dim3 rows)
    with lens have "length rows = length v" by simp
    then show ?thesis
      unfolding w_def Dim3
      by (simp add: clamped_importance_pg_Dim3 len_adv adv_nth)
  qed
  have "length n = Suc (length v)" by (simp add: n_def)
  with ret len_vs n_end n_step vs_nth w_eq show ?thesis
    unfolding tensor_exp_def by blast
qed

subsection \<open>Ratios of at least one\<close>

lemma clip1_at_least_one: "ratio_at_least_one A d \<Longrightarrow> clip1 A d = t_const A 1"
  by (auto simp: ratio_at_least_one_def clip1_def)

lemma map_const_replicate: "\<forall>x\<in>set xs. f x = c \<Longrightarrow> map f xs = replicate (length xs) c"
  by (induction xs) simp_all

lemma ratio_value_unit:
  assumes "t < seq_len lpd"
    and "case lpd of Dim2 ds \<Rightarrow> ratio_at_least_one A (ds ! t)
         | Dim3 rows \<Rightarrow> list_all (ratio_at_least_one A) (rows ! t)"
  shows "ratio_value A lpd t = unit_ratio A lpd t"
proof (cases lpd)
  case (Dim2 ds)
  with assms show ?thesis
    by (simp add: unit_ratio_def clip1_at_least_one)
next
  case (Dim3 rows)
  with assms have "\<forall>d\<in>set (rows ! t). clip1 A d = t_const A 1"
    by (simp add: list_all_iff clip1_at_least_one)
  then have "map (clip1 A) (rows ! t) = replicate (length (rows ! t)) (t_const A 1)"
    by (rule map_const_replicate)
  with Dim3 show ?thesis
    by (simp add: unit_ratio_def)
qed

lemma last_conv_nth_len:
  "length xs = length v \<Longrightarrow> v \<noteq> [] \<Longrightarrow> last xs = xs ! (length v - 1)"
  by (metis last_conv_nth length_0_conv)

lemma final_step_conv:
  assumes "seq_len lpd \<noteq> 0" and "list_all P (final_step lpd)"
  shows "case lpd of Dim2 ds \<Rightarrow> P (ds ! (seq_len lpd - 1))
         | Dim3 rows \<Rightarrow> list_all P (rows ! (seq_len lpd - 1))"
  using assms by (cases lpd) (auto simp: last_conv_nth)

lemma clip1_on_policy: "t_exp A d = t_const A 1 \<Longrightarrow> clip1 A d = t_const A 1"
  by (simp add: clip1_def)

lemma tensor_all_nth:
  assumes "tensor_all P lpd" and "t < seq_len lpd"
  shows "case lpd of Dim2 ds \<Rightarrow> P (ds ! t) | Dim3 rows \<Rightarrow> list_all P (rows ! t)"
proof (cases lpd)
  case (Dim2 ds)
  with assms have "ds ! t \<in> set ds" "\<forall>d\<in>set ds. P d" by (simp_all add: list_all_iff)
  then have "P (ds ! t)" by blast
  with Dim2 show ?thesis by simp
next
  case (Dim3 rows)
  with assms have "rows ! t \<in> set rows" "\<forall>row\<in>set rows. list_all P row"
    by (simp_all add: list_all_iff)
  then have "list_all P (rows ! t)" by blast
  with Dim3 show ?thesis by simp
qed

lemma ratio_value_on_policy:
  assumes "tensor_all (\<lambda>d. t_exp A d = t_const A 1) lpd" and "t < seq_len lpd"
  shows "ratio_value A lpd t = unit_ratio A lpd t"
proof -
  have "tensor_all (ratio_at_least_one A) lpd"
    using assms(1) by (cases lpd) (auto simp: list_all_iff ratio_at_least_one_def)
  from tensor_all_nth [OF this assms(2)] show ?thesis
    by (intro ratio_value_unit assms(2))
qed

lemma rectangular_row_nonempty:
  "rectangular (Dim3 rows) \<Longrightarrow> row \<in> set rows \<Longrightarrow> row \<noteq> []"
  by (cases rows) (auto simp: list_all_iff)

lemma unit_ratio_exact:
  assumes "rectangular lpd" and "t < seq_len lpd"
  shows "unit_ratio exact lpd t = 1"
proof (cases lpd)
  case (Dim2 ds)
  then show ?thesis by (simp add: unit_ratio_def exact_def)
next
  case (Dim3 rows)
  with assms have "rows ! t \<in> set rows" by simp
  with assms(1) Dim3 have "rows ! t \<noteq> []"
    using rectangular_row_nonempty by blast
  with Dim3 show ?thesis
    by (simp add: unit_ratio_def exact_def sum_list_replicate)
qed

lemma td_returns_from_recurrence:
  fixes n :: "real list"
  assumes lens: "length r = length v" "length m = length v"
    and n_end: "n ! length v = 0"
    and n_step: "\<forall>t<length v.
                   n ! t = (r ! t + m ! t * next_of v est t - v ! t) + m ! t * n ! Suc t"
    and k: "k \<le> length v"
  shows "map (\<lambda>t. v ! t + n ! t) [k..<length v] = td_returns (drop k r) (drop k m) est"
  using k
proof (induction "length v - k" arbitrary: k)
  case 0
  then show ?case using lens by simp
next
  case (Suc j)
  then have lt: "k < length v" and j: "j = length v - Suc k" by simp_all
  have ih: "map (\<lambda>t. v ! t + n ! t) [Suc k..<length v] =
            td_returns (drop (Suc k) r) (drop (Suc k) m) est"
    using Suc.hyps(1) [OF j] lt by simp
  have nk: "n ! k = (r ! k + m ! k * next_of v est k - v ! k) + m ! k * n ! Suc k"
    using n_step lt by blast
  have hd_rest: "(case td_returns (drop (Suc k) r) (drop (Suc k) m) est of
                    [] \<Rightarrow> est | g # _ \<Rightarrow> g) =
                 next_of v est k + n ! Suc k"
  proof (cases "Suc k < length v")
    case True
    then have "[Suc k..<length v] = Suc k # [Suc (Suc k)..<length v]"
      by (simp add: upt_conv_Cons)
    with ih [symmetric] True show ?thesis
      by (simp add: next_of_def)
  next
    case False
    with lt have eq: "Suc k = length v" by simp
    then show ?thesis
      using ih [symmetric] n_end by (simp add: next_of_def)
  qed
  have split: "drop k r = r ! k # drop (Suc k) r" "drop k m = m ! k # drop (Suc k) m"
    using lt lens by (simp_all add: Cons_nth_drop_Suc)
  have head: "v ! k + n ! k = r ! k + m ! k * (next_of v est k + n ! Suc k)"
    using nk by (simp add: algebra_simps)
  have "[k..<length v] = k # [Suc k..<length v]"
    using lt by (simp add: upt_conv_Cons)
  then show ?case
    by (simp add: split Let_def hd_rest ih head)
qed

subsection \<open>The final step\<close>

text \<open>
  C1, as the specification states it, fails. With one step, log-probability difference
  \<open>-1\<close>, discount mask \<open>1\<close>, reward \<open>1\<close>, value \<open>0\<close> and bootstrap value \<open>2\<close>,
  in 32-bit arithmetic, the target is the rounded product of the importance ratio and
  \<open>3\<close>, which is at most \<open>2\<close>, and not \<open>reward + mask * bootstrap = 3\<close>: the
  temporal-difference term of the final step is weighted by its clamped importance ratio
  like every other.
\<close>

theorem vtrace_final_step_counterexample:
  "vtrace_returns float32 (Dim2 [- 1]) [1] [1] [0] 2 1 1 =
     Inr ([float32_round (float32_round (float32_round (float32_round (exp (- 1)) * 3)))],
          Dim2 [float32_round (float32_round (exp (- 1)) * 3)],
          Dim2 [float32_round (exp (- 1))]) \<and>
   float32_round (float32_round (float32_round (float32_round (exp (- 1)) * 3))) \<noteq>
     t_add float32 1 (t_mul float32 1 2) \<and>
   t_add float32 1 (t_mul float32 1 2) = 3"
proof -
  define c where "c = float32_round (exp (- 1))"
  have c: "0 \<le> c" "c \<le> 1 / 2"
    using fl_exp_minus_one by (simp_all add: c_def)
  then have not_gt: "\<not> c > 1" by simp
  have ret: "vtrace_returns float32 (Dim2 [- 1]) [1] [1] [0] 2 1 1 =
     Inr ([float32_round (float32_round (float32_round (c * 3)))],
          Dim2 [float32_round (c * 3)], Dim2 [c])"
    using not_gt
    by (simp add: vtrace_returns_def shapes_agree_def tensor_exp_def tensor_clamp_def
        clamp_max_def shift_bootstrap_def diff_value_per_step_def vtrace_loop_def
        vtrace_step_def stack_def advantage_def Let_def float32_def fl_1 fl_2 fl_3
        c_def [symmetric])
  have "0 \<le> c * 3" "c * 3 \<le> 2" using c by simp_all
  from fl_chain_le_2 [OF this]
  have "0 \<le> float32_round (c * 3)" "float32_round (c * 3) \<le> 2" by simp_all
  from fl_chain_le_2 [OF this]
  have "0 \<le> float32_round (float32_round (c * 3))"
    "float32_round (float32_round (c * 3)) \<le> 2" by simp_all
  from fl_chain_le_2 [OF this]
  have le2: "float32_round (float32_round (float32_round (c * 3))) \<le> 2" by simp
  have three: "t_add float32 1 (t_mul float32 1 2) = 3"
    by (simp add: float32_def fl_2 fl_3)
  from ret le2 three show ?thesis
    unfolding c_def by simp
qed

text \<open>
  C1, amended. For a rollout of at least one step in the documented shapes and both
  clamps \<open>1\<close>, the function returns, and the target of the final step is
  \<open>values[T] + (c * (reward[T] + mask[T] * bootstrap - values[T]) + mask[T] * c * 0.0)\<close>,
  every operation being the one of the tensor arithmetic, where \<open>c\<close> is the importance
  ratio of the final step clamped at \<open>1\<close> (the mean of the clamped ratios over the
  actions). When the final importance ratios are at least \<open>1\<close>, \<open>c\<close> is \<open>1\<close> (the
  mean of ones).
\<close>

theorem vtrace_final_step:
  assumes shapes: "shapes_agree lpd m r v" and nonempty: "v \<noteq> []"
  shows "\<exists>v_s w imp c.
           vtrace_returns A lpd m r v est 1 1 = Inr (v_s, w, imp) \<and>
           length v_s = length v \<and>
           c = ratio_value A lpd (length v - 1) \<and>
           last v_s =
             t_add A (last v)
               (t_add A (t_mul A c (t_sub A (t_add A (last r) (t_mul A (last m) est)) (last v)))
                  (t_mul A (t_mul A (last m) c) (t_const A 0))) \<and>
           (list_all (ratio_at_least_one A) (final_step lpd) \<longrightarrow>
              c = unit_ratio A lpd (length v - 1))"
proof -
  define T where "T = length v - 1"
  have T: "T < length v" "Suc T = length v"
    using nonempty by (simp_all add: T_def)
  have lens: "length r = length v" "length m = length v" "seq_len lpd = length v"
    using shapes by (simp_all add: shapes_agree_def)
  from vtrace_returns_elementwise [OF shapes nonempty, of A est]
  obtain v_s w imp n where el:
    "vtrace_returns A lpd m r v est 1 1 = Inr (v_s, w, imp)"
    "length v_s = length v"
    "n ! length v = t_const A 0"
    "\<forall>t<length v.
        n ! t = t_add A (t_mul A (ratio_value A lpd t) (td_term A r m v est v t))
                  (t_mul A (t_mul A (m ! t) (ratio_value A lpd t)) (n ! Suc t))"
    "\<forall>t<length v. v_s ! t = t_add A (v ! t) (n ! t)"
    by blast
  have lasts: "last v_s = v_s ! T" "last v = v ! T" "last r = r ! T" "last m = m ! T"
    using nonempty lens el(2) by (simp_all add: last_conv_nth_len T_def)
  have td: "td_term A r m v est v T = t_sub A (t_add A (r ! T) (t_mul A (m ! T) est)) (v ! T)"
    using T by (simp add: td_term_def next_of_def)
  have "n ! T = t_add A (t_mul A (ratio_value A lpd T) (td_term A r m v est v T))
                  (t_mul A (t_mul A (m ! T) (ratio_value A lpd T)) (n ! Suc T))"
    using el(4) T(1) by blast
  then have nT: "n ! T = t_add A (t_mul A (ratio_value A lpd T)
                                   (t_sub A (t_add A (r ! T) (t_mul A (m ! T) est)) (v ! T)))
                  (t_mul A (t_mul A (m ! T) (ratio_value A lpd T)) (t_const A 0))"
    using el(3) T(2) by (simp add: td)
  have "v_s ! T = t_add A (v ! T) (n ! T)"
    using el(5) T(1) by blast
  then have main: "last v_s =
             t_add A (last v)
               (t_add A (t_mul A (ratio_value A lpd T)
                           (t_sub A (t_add A (last r) (t_mul A (last m) est)) (last v)))
                  (t_mul A (t_mul A (last m) (ratio_value A lpd T)) (t_const A 0)))"
    by (simp add: lasts nT)
  have unit: "ratio_value A lpd T = unit_ratio A lpd T"
    if "list_all (ratio_at_least_one A) (final_step lpd)"
  proof -
    have Tl: "T = seq_len lpd - 1" "seq_len lpd \<noteq> 0" "T < seq_len lpd"
      using lens nonempty by (simp_all add: T_def)
    from final_step_conv [OF Tl(2) that] show ?thesis
      unfolding Tl(1) [symmetric] by (intro ratio_value_unit Tl(3))
  qed
  from el(1,2) main unit show ?thesis
    unfolding T_def by blast
qed

theorem vtrace_final_step_witness:
  "shapes_agree (Dim3 [[0, - 1], [1, 0]]) [1 / 2, 1 / 2] [1, 2] [3, 4 :: real] \<and>
   [3, 4] \<noteq> ([] :: real list) \<and>
   list_all (ratio_at_least_one exact) (final_step (Dim3 [[0, - 1], [1, 0]])) \<and>
   (\<exists>v_s w imp.
      vtrace_returns exact (Dim3 [[0, - 1], [1, 0]]) [1 / 2, 1 / 2] [1, 2] [3, 4] 6 1 1 =
        Inr (v_s, w, imp) \<and>
      length v_s = length [3, 4 :: real] \<and>
      last v_s = 4 + (1 * (2 + 1 / 2 * 6 - 4) + 1 / 2 * 1 * 0))"
proof -
  have a: "shapes_agree (Dim3 [[0, - 1], [1, 0]]) [1 / 2, 1 / 2] [1, 2] [3, 4 :: real]"
    and ne: "[3, 4] \<noteq> ([] :: real list)"
    and fin: "list_all (ratio_at_least_one exact) (final_step (Dim3 [[0, - 1], [1, 0]]))"
    by (simp_all add: shapes_agree_def ratio_at_least_one_def exact_def)
  from vtrace_final_step [OF a ne, of exact 6] fin
  have "\<exists>v_s w imp.
      vtrace_returns exact (Dim3 [[0, - 1], [1, 0]]) [1 / 2, 1 / 2] [1, 2] [3, 4] 6 1 1 =
        Inr (v_s, w, imp) \<and>
      length v_s = length [3, 4 :: real] \<and>
      last v_s = 4 + (1 * (2 + 1 / 2 * 6 - 4) + 1 / 2 * 1 * 0)"
    by (auto simp: unit_ratio_def exact_def)
  with a ne fin show ?thesis by blast
qed

subsection \<open>On-policy rollouts\<close>

text \<open>
  C2, as the specification states it, fails in the arithmetic of the code. With one
  step, log-probability difference \<open>0\<close>, discount mask \<open>1/2\<close>, reward \<open>1\<close>, value
  \<open>100000000\<close> and bootstrap value \<open>1\<close>, the 32-bit computation returns the target
  \<open>0\<close>, whereas \<open>reward + mask * bootstrap\<close> is \<open>3/2\<close>: the function adds the
  temporal-difference term to the value, and \<open>3/2 - 100000000\<close> rounds to
  \<open>-100000000\<close>.
\<close>

theorem vtrace_on_policy_rounding_counterexample:
  "t_exp float32 0 = t_const float32 1 \<and>
   vtrace_returns float32 (Dim2 [0]) [1 / 2] [1] [100000000] 1 1 1 =
     Inr ([0], Dim2 [- 100000000], Dim2 [1]) \<and>
   t_add float32 1 (t_mul float32 (1 / 2) 1) = 3 / 2"
  by (simp add: vtrace_returns_def shapes_agree_def tensor_exp_def tensor_clamp_def
      clamp_max_def shift_bootstrap_def diff_value_per_step_def vtrace_loop_def
      vtrace_step_def stack_def advantage_def Let_def float32_def fl_1 fl_half fl_3_2
      fl_big fl_big_minus)

text \<open>
  C2, amended. When every importance ratio is \<open>1\<close> and both clamps are \<open>1\<close>, the
  function returns, for every rollout of at least one step in the documented shapes,
  the targets \<open>v_s[t] = values[t] + n[t]\<close> with
  \<open>n[t] = 1 * (reward[t] + mask[t] * values[t+1] - values[t]) + mask[t] * 1 * n[t+1]\<close>,
  \<open>values[T+1]\<close> being the bootstrap value and \<open>n[T+1] = 0.0\<close>, every operation being
  the one of the tensor arithmetic (with several actions, \<open>1\<close> is the mean of ones). In
  exact arithmetic these targets are the n-step TD(0) bootstrapped returns
  \<open>td_returns\<close>; in the rounding arithmetic of the code they agree with them up to
  rounding only.
\<close>

theorem vtrace_on_policy_returns:
  "(tensor_all (\<lambda>d. t_exp A d = t_const A 1) lpd \<and> shapes_agree lpd m r v \<and> v \<noteq> [] \<longrightarrow>
      (\<exists>v_s w imp n.
         vtrace_returns A lpd m r v est 1 1 = Inr (v_s, w, imp) \<and>
         length v_s = length v \<and> length n = Suc (length v) \<and>
         n ! length v = t_const A 0 \<and>
         (\<forall>t<length v.
            n ! t =
              t_add A
                (t_mul A (unit_ratio A lpd t)
                   (t_sub A (t_add A (r ! t) (t_mul A (m ! t) (next_of v est t))) (v ! t)))
                (t_mul A (t_mul A (m ! t) (unit_ratio A lpd t)) (n ! Suc t))) \<and>
         (\<forall>t<length v. v_s ! t = t_add A (v ! t) (n ! t)))) \<and>
   (tensor_all (\<lambda>d. d = 0) lpd' \<and> shapes_agree lpd' m' r' v' \<and> v' \<noteq> [] \<longrightarrow>
      (\<exists>w imp. vtrace_returns exact lpd' m' r' v' est' 1 1 =
                 Inr (td_returns r' m' est', w, imp)))"
proof (intro conjI impI)
  assume "tensor_all (\<lambda>d. t_exp A d = t_const A 1) lpd \<and> shapes_agree lpd m r v \<and> v \<noteq> []"
  then have on: "tensor_all (\<lambda>d. t_exp A d = t_const A 1) lpd"
    and shapes: "shapes_agree lpd m r v" and nonempty: "v \<noteq> []"
    by simp_all
  have len: "seq_len lpd = length v"
    using shapes by (simp add: shapes_agree_def)
  from vtrace_returns_elementwise [OF shapes nonempty, of A est]
  obtain v_s w imp n where el:
    "vtrace_returns A lpd m r v est 1 1 = Inr (v_s, w, imp)"
    "length v_s = length v" "length n = Suc (length v)"
    "n ! length v = t_const A 0"
    "\<forall>t<length v.
        n ! t = t_add A (t_mul A (ratio_value A lpd t) (td_term A r m v est v t))
                  (t_mul A (t_mul A (m ! t) (ratio_value A lpd t)) (n ! Suc t))"
    "\<forall>t<length v. v_s ! t = t_add A (v ! t) (n ! t)"
    by blast
  have "\<forall>t<length v.
            n ! t =
              t_add A
                (t_mul A (unit_ratio A lpd t)
                   (t_sub A (t_add A (r ! t) (t_mul A (m ! t) (next_of v est t))) (v ! t)))
                (t_mul A (t_mul A (m ! t) (unit_ratio A lpd t)) (n ! Suc t))"
    using el(5) ratio_value_on_policy [OF on] len by (simp add: td_term_def)
  with el(1-4,6)
  show "\<exists>v_s w imp n.
         vtrace_returns A lpd m r v est 1 1 = Inr (v_s, w, imp) \<and>
         length v_s = length v \<and> length n = Suc (length v) \<and>
         n ! length v = t_const A 0 \<and>
         (\<forall>t<length v.
            n ! t =
              t_add A
                (t_mul A (unit_ratio A lpd t)
                   (t_sub A (t_add A (r ! t) (t_mul A (m ! t) (next_of v est t))) (v ! t)))
                (t_mul A (t_mul A (m ! t) (unit_ratio A lpd t)) (n ! Suc t))) \<and>
         (\<forall>t<length v. v_s ! t = t_add A (v ! t) (n ! t))"
    by blast
next
  assume "tensor_all (\<lambda>d. d = 0) lpd' \<and> shapes_agree lpd' m' r' v' \<and> v' \<noteq> []"
  then have zero: "tensor_all (\<lambda>d. d = 0) lpd'"
    and shapes: "shapes_agree lpd' m' r' v'" and nonempty: "v' \<noteq> []"
    by simp_all
  have lens: "length r' = length v'" "length m' = length v'" "seq_len lpd' = length v'"
    "rectangular lpd'"
    using shapes by (simp_all add: shapes_agree_def)
  have on: "tensor_all (\<lambda>d. t_exp exact d = t_const exact 1) lpd'"
    using zero by (cases lpd') (auto simp: list_all_iff exact_def)
  have ratio: "ratio_value exact lpd' t = 1" if "t < length v'" for t
    using ratio_value_on_policy [OF on, of t] unit_ratio_exact [OF lens(4), of t] that lens(3)
    by simp
  from vtrace_returns_elementwise [OF shapes nonempty, of exact est']
  obtain v_s w imp n where el:
    "vtrace_returns exact lpd' m' r' v' est' 1 1 = Inr (v_s, w, imp)"
    "length v_s = length v'" "length n = Suc (length v')"
    "n ! length v' = t_const exact 0"
    "\<forall>t<length v'.
        n ! t = t_add exact (t_mul exact (ratio_value exact lpd' t)
                               (td_term exact r' m' v' est' v' t))
                  (t_mul exact (t_mul exact (m' ! t) (ratio_value exact lpd' t)) (n ! Suc t))"
    "\<forall>t<length v'. v_s ! t = t_add exact (v' ! t) (n ! t)"
    by blast
  have n_end: "n ! length v' = 0"
    using el(4) by (simp add: exact_def)
  have n_step: "\<forall>t<length v'.
                   n ! t = (r' ! t + m' ! t * next_of v' est' t - v' ! t) + m' ! t * n ! Suc t"
    using el(5) ratio by (simp add: exact_def td_term_def)
  have "map (\<lambda>t. v' ! t + n ! t) [0..<length v'] = td_returns (drop 0 r') (drop 0 m') est'"
    by (rule td_returns_from_recurrence [OF lens(1,2) n_end n_step]) simp
  moreover have "v_s = map (\<lambda>t. v' ! t + n ! t) [0..<length v']"
    using el(2,6) by (intro nth_equalityI) (simp_all add: exact_def)
  ultimately have "v_s = td_returns r' m' est'" by simp
  with el(1) show "\<exists>w imp. vtrace_returns exact lpd' m' r' v' est' 1 1 =
                 Inr (td_returns r' m' est', w, imp)"
    by blast
qed

theorem vtrace_on_policy_returns_witness:
  "tensor_all (\<lambda>d. t_exp exact d = t_const exact 1) (Dim2 [0, 0, 0]) \<and>
   tensor_all (\<lambda>d. d = 0) (Dim2 [0, 0, 0 :: real]) \<and>
   shapes_agree (Dim2 [0, 0, 0]) [1 / 2, 0, 1 / 2] [1, 2, 3] [5, 6, 7 :: real] \<and>
   [5, 6, 7] \<noteq> ([] :: real list) \<and>
   (\<exists>w imp.
      vtrace_returns exact (Dim2 [0, 0, 0]) [1 / 2, 0, 1 / 2] [1, 2, 3] [5, 6, 7] 4 1 1 =
        Inr ([2, 2, 5], w, imp))"
proof -
  have on: "tensor_all (\<lambda>d. t_exp exact d = t_const exact 1) (Dim2 [0, 0, 0])"
    and zero: "tensor_all (\<lambda>d. d = 0) (Dim2 [0, 0, 0 :: real])"
    by (simp_all add: exact_def)
  have shapes: "shapes_agree (Dim2 [0, 0, 0]) [1 / 2, 0, 1 / 2] [1, 2, 3] [5, 6, 7 :: real]"
    by (simp add: shapes_agree_def)
  have td: "td_returns [1, 2, 3] [1 / 2, 0, 1 / 2] 4 = [2, 2, 5]"
    by simp
  from vtrace_on_policy_returns
         [of exact "Dim2 [0, 0, 0]" "[1 / 2, 0, 1 / 2]" "[1, 2, 3]" "[5, 6, 7]" 4
             "Dim2 [0, 0, 0]" "[1 / 2, 0, 1 / 2]" "[1, 2, 3]" "[5, 6, 7]" 4]
    zero shapes
  have "\<exists>w imp.
      vtrace_returns exact (Dim2 [0, 0, 0]) [1 / 2, 0, 1 / 2] [1, 2, 3] [5, 6, 7] 4 1 1 =
        Inr (td_returns [1, 2, 3] [1 / 2, 0, 1 / 2] 4, w, imp)"
    by blast
  with on zero shapes show ?thesis
    unfolding td by simp
qed

subsection \<open>Clamps\<close>

text \<open>
  C3. A call in which \<open>minimum_importance_value\<close> or \<open>minimum_importance_policy\<close> is
  not \<open>1\<close> never returns a value: it raises, and for tensors of the documented shapes
  the exception is \<open>NotImplementedError\<close> (for other shapes the elementwise operations
  before the check raise first).
\<close>

theorem vtrace_non_unit_clamp_raises:
  assumes "minimum_importance_value \<noteq> 1 \<or> minimum_importance_policy \<noteq> 1"
  shows "(\<exists>e. vtrace_returns A lpd m r v est minimum_importance_value
                 minimum_importance_policy = Inl e) \<and>
         (shapes_agree lpd m r v \<longrightarrow>
            vtrace_returns A lpd m r v est minimum_importance_value
              minimum_importance_policy = Inl NotImplementedError)"
  using assms by (auto simp: vtrace_returns_def Let_def)

theorem vtrace_non_unit_clamp_raises_witness:
  "shapes_agree (Dim2 [0, 1 / 2]) [1 / 2, 1 / 2] [1, 2] [3, 4 :: real] \<and>
   vtrace_returns float32 (Dim2 [0, 1 / 2]) [1 / 2, 1 / 2] [1, 2] [3, 4] 6 2 1 =
     Inl NotImplementedError"
  using vtrace_non_unit_clamp_raises
          [of 2 1 float32 "Dim2 [0, 1 / 2]" "[1 / 2, 1 / 2]" "[1, 2]" "[3, 4]" 6]
  by (simp add: shapes_agree_def)




section \<open>Properties of the rollout cache\<close>

lemma then_do_None [simp]: "then_do (s, None) f = f s"
  by (simp add: then_do_def)

lemma then_do_Some [simp]: "then_do (s, Some e) f = (s, Some e)"
  by (simp add: then_do_def)

lemma keys_update_present:
  "map_of al k = Some x \<Longrightarrow> map fst (AList.update k v al) = map fst al"
  by (induction al) (auto split: if_splits)

lemma append_to_present:
  "map_of (entries s) k = Some xs \<Longrightarrow>
   append_to k v s = (s\<lparr>entries := AList.update k (xs @ [v]) (entries s)\<rparr>, None)"
  by (simp add: append_to_def)

lemma append_to_keys: "map fst (entries (fst (append_to k v s))) = map fst (entries s)"
  by (auto simp: append_to_def keys_update_present split: option.splits)

lemma append_to_attrs:
  "nb_rollout (fst (append_to k v s)) = nb_rollout s"
  "reward_normalizer (fst (append_to k v s)) = reward_normalizer s"
  by (simp_all add: append_to_def split: option.splits)

lemma then_do_preserves:
  assumes "P (fst r)" and "\<And>s. P s \<Longrightarrow> P (fst (f s))"
  shows "P (fst (then_do r f))"
  using assms by (cases "snd r") (auto simp: then_do_def)

lemma for_each_preserves:
  assumes "P s" and "\<And>x s. P s \<Longrightarrow> P (fst (body x s))"
  shows "P (fst (for_each body xs s))"
  using assms(1)
proof (induction xs arbitrary: s)
  case Nil
  then show ?case by simp
next
  case (Cons x xs)
  show ?case
    unfolding for_each.simps
    by (rule then_do_preserves) (use Cons assms(2) in auto)
qed

lemma write_forward_item_keys:
  "map fst (entries (fst (rollout_write_forward_item kv s))) = map fst (entries s)"
  by (simp add: rollout_write_forward_item_def append_to_keys)

lemma write_forward_item_attrs:
  "nb_rollout (fst (rollout_write_forward_item kv s)) = nb_rollout s"
  by (simp add: rollout_write_forward_item_def append_to_attrs)

lemma rollout_write_forward_keys:
  "map fst (entries (fst (rollout_write_forward experience s))) = map fst (entries s)"
  unfolding rollout_write_forward_def
  by (rule for_each_preserves [where P = "\<lambda>s'. map fst (entries s') = map fst (entries s)"])
     (simp_all add: write_forward_item_keys)

lemma rollout_write_forward_nb:
  "nb_rollout (fst (rollout_write_forward experience s)) = nb_rollout s"
  unfolding rollout_write_forward_def
  by (rule for_each_preserves [where P = "\<lambda>s'. nb_rollout s' = nb_rollout s"])
     (simp_all add: write_forward_item_attrs)

lemma rollout_write_env_keys:
  "map fst (entries (fst (rollout_write_env obs rewards terminals s))) = map fst (entries s)"
  unfolding rollout_write_env_def Let_def
  by (intro then_do_preserves [where P = "\<lambda>s'. map fst (entries s') = map fst (entries s)"])
     (simp_all add: append_to_keys)

lemma rollout_write_env_nb:
  "nb_rollout (fst (rollout_write_env obs rewards terminals s)) = nb_rollout s"
  unfolding rollout_write_env_def Let_def
  by (intro then_do_preserves [where P = "\<lambda>s'. nb_rollout s' = nb_rollout s"])
     (simp_all add: append_to_attrs)

lemma rollout_reachable_inv:
  "rollout_reachable n f s \<Longrightarrow> map fst (entries s) = declared_keys \<and> nb_rollout s = n"
proof (induction rule: rollout_reachable.induct)
  case reach_init
  show ?case by (simp add: ACRollout_init_def declared_keys_def)
next
  case (reach_write_env s obs rewards terminals)
  then show ?case by (simp add: rollout_write_env_keys rollout_write_env_nb)
next
  case (reach_write_forward s experience)
  then show ?case by (simp add: rollout_write_forward_keys rollout_write_forward_nb)
next
  case (reach_clear s)
  then show ?case by (simp add: rollout_clear_def comp_def)
qed

lemma map_of_const_values:
  "map_of (map (\<lambda>kv. (fst kv, c)) al) k = (if k \<in> fst ` set al then Some c else None)"
  by (induction al) auto

lemma map_of_clear:
  "map_of (entries (rollout_clear s)) k =
     (if k \<in> set (map fst (entries s)) then Some [] else None)"
  by (simp add: rollout_clear_def map_of_const_values)

lemma rollout_write_env_present:
  assumes "map_of (entries s) ''states'' = Some a"
    and "map_of (entries s) ''rewards'' = Some b"
    and "map_of (entries s) ''terminals'' = Some c"
  shows "\<exists>s'. rollout_write_env obs rewards terminals s = (s', None) \<and>
              map_of (entries s') ''states'' = Some (a @ [obs]) \<and>
              map_of (entries s') ''rewards'' = Some (b @ [reward_normalizer s rewards]) \<and>
              map_of (entries s') ''terminals'' = Some (c @ [terminals]) \<and>
              nb_rollout s' = nb_rollout s \<and> reward_normalizer s' = reward_normalizer s"
  using assms
  by (simp add: rollout_write_env_def Let_def append_to_present update_conv')

lemma rollout_write_envs_present:
  assumes "map_of (entries s) ''states'' = Some a"
    and "map_of (entries s) ''rewards'' = Some b"
    and "map_of (entries s) ''terminals'' = Some c"
  shows "\<exists>s' a' c'. rollout_write_envs steps s = (s', None) \<and>
              map_of (entries s') ''states'' = Some a' \<and>
              map_of (entries s') ''terminals'' = Some c' \<and>
              map_of (entries s') ''rewards'' =
                Some (b @ map (\<lambda>step. reward_normalizer s (fst (snd step))) steps) \<and>
              nb_rollout s' = nb_rollout s"
  using assms
proof (induction steps arbitrary: s a b c)
  case Nil
  then show ?case by (simp add: rollout_write_envs_def)
next
  case (Cons step steps)
  from rollout_write_env_present [OF Cons.prems, of "fst step" "fst (snd step)" "snd (snd step)"]
  obtain s1 where s1: "rollout_write_env (fst step) (fst (snd step)) (snd (snd step)) s = (s1, None)"
    "map_of (entries s1) ''states'' = Some (a @ [fst step])"
    "map_of (entries s1) ''rewards'' = Some (b @ [reward_normalizer s (fst (snd step))])"
    "map_of (entries s1) ''terminals'' = Some (c @ [snd (snd step)])"
    "nb_rollout s1 = nb_rollout s" "reward_normalizer s1 = reward_normalizer s"
    by blast
  from Cons.IH [OF s1(2,3,4)] s1(1,5,6)
  show ?case
    by (auto simp: rollout_write_envs_def)
qed



subsection \<open>Readiness of the rollout cache\<close>

text \<open>
  C7, as stated for every horizon, fails at horizon \<open>0\<close>: the cleared cache has length
  \<open>0\<close>, which is the horizon, so \<open>is_ready()\<close> is true after \<open>clear()\<close>.
\<close>

theorem rollout_clear_ready_counterexample:
  "nb_rollout (ACRollout_init 0 (\<lambda>r::real. r)) = 0 \<and>
   rollout_is_ready (rollout_clear (ACRollout_init 0 (\<lambda>r::real. r))) = Inr True"
  by (simp add: rollout_is_ready_def rollout_len_of_def rollout_clear_def ACRollout_init_def)

text \<open>
  C7, amended. Starting from the empty cache of the constructor, every run of
  \<open>write_env\<close> calls returns, and \<open>is_ready()\<close> is then true exactly when the number
  of calls is the horizon \<open>nb_rollout\<close>. After \<open>clear()\<close> in any state the cache can
  reach, the declared fields are all there with length \<open>0\<close>, and \<open>is_ready()\<close> is
  false unless the horizon is \<open>0\<close>.
\<close>

theorem rollout_ready_at_horizon_and_clear:
  "(\<exists>s. rollout_write_envs steps (ACRollout_init n f) = (s, None) \<and>
        rollout_is_ready s = Inr (int (length steps) = n)) \<and>
   (rollout_reachable n f s' \<longrightarrow>
      map fst (entries (rollout_clear s')) = declared_keys \<and>
      list_all (\<lambda>kv. snd kv = []) (entries (rollout_clear s')) \<and>
      rollout_is_ready (rollout_clear s') = Inr (n = 0))"
proof (intro conjI impI)
  have init: "map_of (entries (ACRollout_init n f)) ''states'' = Some []"
    "map_of (entries (ACRollout_init n f)) ''rewards'' = Some []"
    "map_of (entries (ACRollout_init n f)) ''terminals'' = Some []"
    by (simp_all add: ACRollout_init_def)
  from rollout_write_envs_present [OF init, of steps]
  obtain s where s: "rollout_write_envs steps (ACRollout_init n f) = (s, None)"
    "map_of (entries s) ''rewards'' =
       Some (map (\<lambda>step. reward_normalizer (ACRollout_init n f) (fst (snd step))) steps)"
    "nb_rollout s = nb_rollout (ACRollout_init n f)"
    by auto
  have "rollout_is_ready s = Inr (int (length steps) = n)"
    using s(2,3) by (simp add: rollout_is_ready_def rollout_len_of_def ACRollout_init_def)
  with s(1) show "\<exists>s. rollout_write_envs steps (ACRollout_init n f) = (s, None) \<and>
        rollout_is_ready s = Inr (int (length steps) = n)"
    by blast
next
  assume reach: "rollout_reachable n f s'"
  from rollout_reachable_inv [OF reach]
  have inv: "map fst (entries s') = declared_keys" "nb_rollout s' = n" by simp_all
  show "map fst (entries (rollout_clear s')) = declared_keys"
    using inv(1) by (simp add: rollout_clear_def comp_def)
  show "list_all (\<lambda>kv. snd kv = []) (entries (rollout_clear s'))"
    by (simp add: rollout_clear_def list_all_iff)
  have "map_of (entries (rollout_clear s')) ''rewards'' = Some []"
    by (simp add: map_of_clear inv(1) declared_keys_def)
  then show "rollout_is_ready (rollout_clear s') = Inr (n = 0)"
    using inv(2) by (auto simp: rollout_is_ready_def rollout_len_of_def rollout_clear_def)
qed

theorem rollout_ready_at_horizon_and_clear_witness:
  "rollout_write_envs [(1, 2, 3), (4, 5, 6)] (ACRollout_init 2 (\<lambda>r::real. r)) =
     (\<lparr>entries = [(''states'', [1, 4]), (''rewards'', [2, 5]), (''terminals'', [3, 6]),
                  (''values'', []), (''log_probs'', []), (''entropies'', [])],
       nb_rollout = 2, reward_normalizer = \<lambda>r. r\<rparr>, None) \<and>
   rollout_is_ready
     \<lparr>entries = [(''states'', [1, 4]), (''rewards'', [2, 5]), (''terminals'', [3, 6]),
                 (''values'', []), (''log_probs'', []), (''entropies'', [])],
      nb_rollout = 2, reward_normalizer = \<lambda>r::real. r\<rparr> = Inr True \<and>
   rollout_is_ready (rollout_clear (fst (rollout_write_env 1 2 3
       (ACRollout_init 2 (\<lambda>r::real. r))))) = Inr False"
proof -
  have run: "rollout_write_envs [(1, 2, 3), (4, 5, 6)] (ACRollout_init 2 (\<lambda>r::real. r)) =
     (\<lparr>entries = [(''states'', [1, 4]), (''rewards'', [2, 5]), (''terminals'', [3, 6]),
                  (''values'', []), (''log_probs'', []), (''entropies'', [])],
       nb_rollout = 2, reward_normalizer = \<lambda>r. r\<rparr>, None)"
    by (simp add: rollout_write_envs_def rollout_write_env_def append_to_def
        ACRollout_init_def Let_def)
  have reach: "rollout_reachable 2 (\<lambda>r::real. r)
                 (fst (rollout_write_env 1 2 3 (ACRollout_init 2 (\<lambda>r::real. r))))"
    by (intro rollout_reachable.intros)
  from rollout_ready_at_horizon_and_clear
         [of "[(1, 2, 3), (4, 5, 6)]" 2 "\<lambda>r::real. r"
             "fst (rollout_write_env 1 2 3 (ACRollout_init 2 (\<lambda>r::real. r)))"]
    run reach
  show ?thesis by simp
qed

section \<open>Properties of the replay cache\<close>

lemma then_do_NoneD:
  "then_do r f = (s', None) \<Longrightarrow> snd r = None \<and> f (fst r) = (s', None)"
  by (cases r; cases "snd r") (auto simp: then_do_def)

lemma arrays_ok_update:
  "arrays_ok C A \<Longrightarrow> C \<le> length arr \<Longrightarrow> arrays_ok C (AList.update k arr A)"
  by (auto simp: arrays_ok_def update_conv')

lemma set_row_fits:
  assumes "i < length arr" and "row_fits width v"
  shows "\<exists>row. set_row arr i width v = Inr (arr[i := Some row])"
  using assms by (auto simp: set_row_def row_fits_def)

lemma row_fits_map: "row_fits n (map f v) = row_fits n v"
  by (simp add: row_fits_def)

lemma store_row_only_arrays: "\<exists>A. fst (store_row key v s) = s\<lparr>arrays := A\<rparr>"
proof (cases "snd (store_row key v s)")
  case None
  then show ?thesis
    by (auto simp: store_row_def split: option.splits sum.splits)
next
  case (Some e)
  have "s = s\<lparr>arrays := arrays s\<rparr>" by simp
  with Some show ?thesis
    by (auto simp: store_row_def split: option.splits sum.splits intro: exI [of _ "arrays s"])
qed

lemma store_row_ok:
  assumes "arrays_ok (max_len s) (arrays s)" and "current_index s < max_len s"
    and "map_of (arrays s) key \<noteq> None" and "row_fits (nb_env s) v"
  shows "\<exists>A. store_row key v s = (s\<lparr>arrays := A\<rparr>, None) \<and> arrays_ok (max_len s) A"
proof -
  from assms(3) obtain arr where arr: "map_of (arrays s) key = Some arr" by auto
  with assms(1) have len: "max_len s \<le> length arr" by (auto simp: arrays_ok_def)
  with assms(2) have "current_index s < length arr" by simp
  from set_row_fits [OF this assms(4)]
  obtain row where "set_row arr (current_index s) (nb_env s) v =
      Inr (arr[current_index s := Some row])"
    by blast
  with arr have "store_row key v s =
      (s\<lparr>arrays := AList.update key (arr[current_index s := Some row]) (arrays s)\<rparr>, None)"
    by (simp add: store_row_def)
  moreover have "arrays_ok (max_len s)
      (AList.update key (arr[current_index s := Some row]) (arrays s))"
    using assms(1) len by (intro arrays_ok_update) simp_all
  ultimately show ?thesis by blast
qed

lemma create_if_missing_only_arrays: "\<exists>A. create_if_missing key s = s\<lparr>arrays := A\<rparr>"
proof -
  have "s = s\<lparr>arrays := arrays s\<rparr>" by simp
  then show ?thesis
    by (auto simp: create_if_missing_def intro: exI [of _ "arrays s"])
qed

lemma create_if_missing_ok:
  assumes "arrays_ok (max_len s) (arrays s)"
  shows "\<exists>A. create_if_missing key s = s\<lparr>arrays := A\<rparr> \<and> arrays_ok (max_len s) A \<and>
             map_of A key \<noteq> None"
proof (cases "map_of (arrays s) key = None")
  case True
  then have "create_if_missing key s =
      s\<lparr>arrays := AList.update key (np_empty (max_len s)) (arrays s)\<rparr>"
    by (simp add: create_if_missing_def)
  moreover have "arrays_ok (max_len s) (AList.update key (np_empty (max_len s)) (arrays s))"
    using assms by (intro arrays_ok_update) (simp_all add: np_empty_def)
  ultimately show ?thesis by (auto simp: update_conv')
next
  case False
  have "s = s\<lparr>arrays := arrays s\<rparr>" by simp
  with False assms show ?thesis
    by (auto simp: create_if_missing_def intro!: exI [of _ "arrays s"])
qed

lemma write_item_ok:
  assumes "arrays_ok (max_len s) (arrays s)" and "current_index s < max_len s"
    and "row_fits (nb_env s) v"
  shows "\<exists>A. store_row key v (create_if_missing key s) = (s\<lparr>arrays := A\<rparr>, None) \<and>
             arrays_ok (max_len s) A \<and> map_of A key \<noteq> None"
proof -
  from create_if_missing_ok [OF assms(1), of key]
  obtain A1 where A1: "create_if_missing key s = s\<lparr>arrays := A1\<rparr>"
    "arrays_ok (max_len s) A1" "map_of A1 key \<noteq> None"
    by blast
  then obtain arr where arr: "map_of A1 key = Some arr" by auto
  with A1(2) have len: "max_len s \<le> length arr" by (auto simp: arrays_ok_def)
  with assms(2) have "current_index s < length arr" by simp
  from set_row_fits [OF this assms(3)]
  obtain row where "set_row arr (current_index s) (nb_env s) v =
      Inr (arr[current_index s := Some row])"
    by blast
  with arr A1(1) have "store_row key v (create_if_missing key s) =
      (s\<lparr>arrays := AList.update key (arr[current_index s := Some row]) A1\<rparr>, None)"
    by (simp add: store_row_def)
  moreover have "arrays_ok (max_len s) (AList.update key (arr[current_index s := Some row]) A1)"
    using A1(2) len by (intro arrays_ok_update) simp_all
  ultimately show ?thesis by (auto simp: update_conv')
qed

lemma write_obs_ok:
  assumes "arrays_ok (max_len s) (arrays s)" and "current_index s < max_len s"
    and "list_all (\<lambda>kv. row_fits (nb_env s) (snd kv)) obs"
  shows "\<exists>A. for_each write_obs_item obs s = (s\<lparr>arrays := A\<rparr>, None) \<and>
             arrays_ok (max_len s) A"
  using assms
proof (induction obs arbitrary: s)
  case Nil
  have "s = s\<lparr>arrays := arrays s\<rparr>" by simp
  with Nil show ?case by (auto intro!: exI [of _ "arrays s"])
next
  case (Cons kv obs)
  from Cons.prems have v: "row_fits (nb_env s) (snd kv)" by simp
  from write_item_ok [OF Cons.prems(1,2) v, of "''obs-'' @ fst kv"]
  obtain A1 where A1: "write_obs_item kv s = (s\<lparr>arrays := A1\<rparr>, None)"
    "arrays_ok (max_len s) A1"
    by (auto simp: write_obs_item_def Let_def)
  from Cons.IH [of "s\<lparr>arrays := A1\<rparr>"] A1(2) Cons.prems
  obtain A2 where "for_each write_obs_item obs (s\<lparr>arrays := A1\<rparr>) = (s\<lparr>arrays := A2\<rparr>, None)"
    "arrays_ok (max_len s) A2"
    by auto
  with A1(1) show ?case by auto
qed

lemma replay_write_env_ok:
  assumes "arrays_ok (max_len s) (arrays s)" and "current_index s < max_len s"
    and "step_fits (nb_env s) (obs, rewards, terminals)"
  shows "\<exists>A. replay_write_env obs rewards terminals s =
               (s\<lparr>arrays := A,
                  current_index := (current_index s + 1) mod max_len s,
                  num_inserted := num_inserted s + 1\<rparr>, None) \<and>
             arrays_ok (max_len s) A"
proof -
  from assms(3) have fits: "list_all (\<lambda>kv. row_fits (nb_env s) (snd kv)) obs"
    "row_fits (nb_env s) rewards" "row_fits (nb_env s) (map (\<lambda>t. 1 - t) terminals)"
    by (simp_all add: step_fits_def row_fits_map)
  from write_obs_ok [OF assms(1,2) fits(1)]
  obtain A1 where A1: "for_each write_obs_item obs s = (s\<lparr>arrays := A1\<rparr>, None)"
    "arrays_ok (max_len s) A1"
    by blast
  from store_row_ok [of "s\<lparr>arrays := A1\<rparr>" "''rewards''" rewards] A1(2) assms(2) fits(2)
  obtain A2 where A2: "store_row ''rewards'' rewards (s\<lparr>arrays := A1\<rparr>) = (s\<lparr>arrays := A2\<rparr>, None)"
    "arrays_ok (max_len s) A2"
    by (auto simp: arrays_ok_def)
  from store_row_ok [of "s\<lparr>arrays := A2\<rparr>" "''terminals''" "map (\<lambda>t. 1 - t) terminals"]
    A2(2) assms(2) fits(3)
  obtain A3 where A3: "store_row ''terminals'' (map (\<lambda>t. 1 - t) terminals) (s\<lparr>arrays := A2\<rparr>) =
      (s\<lparr>arrays := A3\<rparr>, None)"
    "arrays_ok (max_len s) A3"
    by (auto simp: arrays_ok_def)
  from assms(2) have "advance (s\<lparr>arrays := A3\<rparr>) =
      (s\<lparr>arrays := A3, current_index := (current_index s + 1) mod max_len s,
         num_inserted := num_inserted s + 1\<rparr>, None)"
    by (simp add: advance_def)
  with A1(1) A2(1) A3 show ?thesis
    by (auto simp: replay_write_env_def)
qed

lemma replay_write_envs_ok:
  assumes "arrays_ok (max_len s) (arrays s)" and "current_index s < max_len s"
    and "list_all (step_fits (nb_env s)) steps"
  shows "\<exists>A. replay_write_envs steps s =
               (s\<lparr>arrays := A,
                  current_index := (current_index s + length steps) mod max_len s,
                  num_inserted := num_inserted s + length steps\<rparr>, None) \<and>
             arrays_ok (max_len s) A"
  using assms
proof (induction steps arbitrary: s)
  case Nil
  then show ?case
    by (auto simp: replay_write_envs_def intro!: exI [of _ "arrays s"])
next
  case (Cons step steps)
  obtain obs rewards terminals where step: "step = (obs, rewards, terminals)"
    by (cases step) auto
  with Cons.prems have fits: "step_fits (nb_env s) (obs, rewards, terminals)" by simp
  from replay_write_env_ok [OF Cons.prems(1,2) fits]
  obtain A1 where A1: "replay_write_env obs rewards terminals s =
               (s\<lparr>arrays := A1,
                  current_index := (current_index s + 1) mod max_len s,
                  num_inserted := num_inserted s + 1\<rparr>, None)"
    "arrays_ok (max_len s) A1"
    by blast
  define s1 where "s1 = s\<lparr>arrays := A1,
                  current_index := (current_index s + 1) mod max_len s,
                  num_inserted := num_inserted s + 1\<rparr>"
  have pos: "0 < max_len s" using Cons.prems(2) by simp
  have s1: "arrays_ok (max_len s1) (arrays s1)" "current_index s1 < max_len s1"
    "list_all (step_fits (nb_env s1)) steps"
    using A1(2) Cons.prems(3) pos by (simp_all add: s1_def)
  from Cons.IH [OF s1]
  obtain A2 where A2: "replay_write_envs steps s1 =
               (s1\<lparr>arrays := A2,
                  current_index := (current_index s1 + length steps) mod max_len s1,
                  num_inserted := num_inserted s1 + length steps\<rparr>, None)"
    "arrays_ok (max_len s1) A2"
    by blast
  have "replay_write_envs (step # steps) s = replay_write_envs steps s1"
    using A1(1) by (simp add: replay_write_envs_def step s1_def)
  moreover have "((current_index s + 1) mod max_len s + length steps) mod max_len s =
                 (current_index s + Suc (length steps)) mod max_len s"
    by (simp add: mod_add_left_eq)
  ultimately show ?case
    using A2 by (auto simp: s1_def intro!: exI [of _ A2])
qed

lemma write_obs_only_arrays: "\<exists>A. fst (for_each write_obs_item obs s) = s\<lparr>arrays := A\<rparr>"
proof (rule for_each_preserves [where P = "\<lambda>s'. \<exists>A. s' = s\<lparr>arrays := A\<rparr>"])
  show "\<exists>A. s = s\<lparr>arrays := A\<rparr>"
    by (rule exI [of _ "arrays s"]) simp
next
  fix x :: "string \<times> row" and s'
  assume "\<exists>A. s' = s\<lparr>arrays := A\<rparr>"
  then obtain A where A: "s' = s\<lparr>arrays := A\<rparr>" by blast
  obtain A1 where A1: "create_if_missing (''obs-'' @ fst x) s' = s'\<lparr>arrays := A1\<rparr>"
    using create_if_missing_only_arrays by blast
  obtain A2 where "fst (store_row (''obs-'' @ fst x) (snd x) (s'\<lparr>arrays := A1\<rparr>)) =
      s'\<lparr>arrays := A1, arrays := A2\<rparr>"
    using store_row_only_arrays by blast
  with A A1 show "\<exists>A. fst (write_obs_item x s') = s\<lparr>arrays := A\<rparr>"
    by (auto simp: write_obs_item_def Let_def)
qed

lemma replay_write_env_counts:
  assumes "replay_write_env obs rewards terminals s = (s', None)"
  shows "0 < max_len s \<and> num_inserted s' = num_inserted s + 1 \<and>
         current_index s' = (current_index s + 1) mod max_len s \<and> max_len s' = max_len s"
proof -
  define r1 where "r1 = for_each write_obs_item obs s"
  define r2 where "r2 = then_do r1 (store_row ''rewards'' rewards)"
  define r3 where "r3 = then_do r2 (store_row ''terminals'' (map (\<lambda>t. 1 - t) terminals))"
  have adv: "advance (fst r3) = (s', None)"
    using assms then_do_NoneD [of r3 advance s']
    by (simp add: replay_write_env_def r1_def r2_def r3_def)
  obtain A1 where A1: "fst r1 = s\<lparr>arrays := A1\<rparr>"
    unfolding r1_def using write_obs_only_arrays by blast
  have "\<exists>A. fst r2 = s\<lparr>arrays := A\<rparr>"
    unfolding r2_def
  proof (rule then_do_preserves [where P = "\<lambda>s'. \<exists>A. s' = s\<lparr>arrays := A\<rparr>"])
    show "\<exists>A. fst r1 = s\<lparr>arrays := A\<rparr>" using A1 by blast
  next
    fix t assume "\<exists>A. t = s\<lparr>arrays := A\<rparr>"
    then show "\<exists>A. fst (store_row ''rewards'' rewards t) = s\<lparr>arrays := A\<rparr>"
      using store_row_only_arrays [of "''rewards''" rewards t] by auto
  qed
  then have "\<exists>A. fst r3 = s\<lparr>arrays := A\<rparr>"
    unfolding r3_def
  proof (rule then_do_preserves [where P = "\<lambda>s'. \<exists>A. s' = s\<lparr>arrays := A\<rparr>"])
    fix t assume "\<exists>A. t = s\<lparr>arrays := A\<rparr>"
    then show "\<exists>A. fst (store_row ''terminals'' (map (\<lambda>t. 1 - t) terminals) t) =
                 s\<lparr>arrays := A\<rparr>"
      using store_row_only_arrays [of "''terminals''" "map (\<lambda>t. 1 - t) terminals" t] by auto
  qed
  then obtain A3 where "fst r3 = s\<lparr>arrays := A3\<rparr>" by blast
  with adv show ?thesis
    by (auto simp: advance_def split: if_splits)
qed

subsection \<open>The write cursor\<close>

text \<open>
  C10, as stated for every capacity, fails at capacity \<open>0\<close>, which the constructor
  yields when \<open>max_len < nb_env\<close>: the cursor \<open>0\<close> is not below the capacity, and
  \<open>write_env\<close> raises \<open>ZeroDivisionError\<close> at the modulo, leaving the insertion
  count unchanged.
\<close>

theorem replay_zero_capacity_counterexample:
  "ExperienceReplay_init 2 1 1 1 =
     Inr \<lparr>arrays = [(''rewards'', [None]), (''terminals'', [None])],
          nb_env = 2, max_len = 0, batch_size = 1, rollout_len = 1, min_length = 100,
          cached_rollout = [], max_cache = 5, current_index = 0, num_inserted = 0,
          printed = []\<rparr> \<and>
   replay_write_env [] [1, 0] [0, 0]
     \<lparr>arrays = [(''rewards'', [None]), (''terminals'', [None])],
      nb_env = 2, max_len = 0, batch_size = 1, rollout_len = 1, min_length = 100,
      cached_rollout = [], max_cache = 5, current_index = 0, num_inserted = 0,
      printed = []\<rparr> =
     (\<lparr>arrays = [(''rewards'', [Some [1, 0]]), (''terminals'', [Some [1, 1]])],
       nb_env = 2, max_len = 0, batch_size = 1, rollout_len = 1, min_length = 100,
       cached_rollout = [], max_cache = 5, current_index = 0, num_inserted = 0,
       printed = []\<rparr>, Some ZeroDivisionError) \<and>
   \<not> current_index
       \<lparr>arrays = [(''rewards'', [None]), (''terminals'', [None])],
        nb_env = 2, max_len = 0, batch_size = 1, rollout_len = 1, min_length = 100,
        cached_rollout = [], max_cache = 5, current_index = 0, num_inserted = 0,
        printed = []\<rparr> <
     max_len
       \<lparr>arrays = [(''rewards'', [None]), (''terminals'', [None])],
        nb_env = 2, max_len = 0, batch_size = 1, rollout_len = 1, min_length = 100,
        cached_rollout = [], max_cache = 5, current_index = 0, num_inserted = 0,
        printed = []\<rparr>"
  by (simp add: ExperienceReplay_init_def np_empty_def replay_write_env_def store_row_def
      set_row_def advance_def)

text \<open>
  C10, amended. Let the capacity \<open>C = max_len // nb_env\<close> be at least \<open>1\<close>. From the
  state of the constructor, every run of \<open>write_env\<close> calls whose rows have one entry
  per environment (or a single entry, which is broadcast) returns; after \<open>n\<close> calls the insertion count is \<open>n\<close>, the cursor
  is \<open>n mod C\<close>, below \<open>C\<close>, and the reported length is \<open>min n C\<close>, at most
  \<open>C\<close>. In any state, a \<open>write_env\<close> call that returns has added \<open>1\<close> to the
  insertion count and moved the cursor to \<open>(cursor + 1) mod C\<close>.
\<close>

theorem replay_write_env_cursor_and_length:
  "(ExperienceReplay_init nb_env' batch_size' rollout_len' max_len' = Inr s0 \<and>
    nb_env' \<le> max_len' \<and> list_all (step_fits nb_env') steps \<longrightarrow>
      (\<exists>s. replay_write_envs steps s0 = (s, None) \<and>
           max_len s = max_len' div nb_env' \<and> 0 < max_len s \<and>
           num_inserted s = length steps \<and>
           current_index s = length steps mod max_len s \<and>
           current_index s < max_len s \<and>
           replay_len s = min (length steps) (max_len s) \<and>
           replay_len s \<le> max_len s)) \<and>
   (replay_write_env obs rewards terminals s1 = (s2, None) \<longrightarrow>
      0 < max_len s1 \<and> max_len s2 = max_len s1 \<and>
      num_inserted s2 = num_inserted s1 + 1 \<and>
      current_index s2 = (current_index s1 + 1) mod max_len s1 \<and>
      current_index s2 < max_len s2 \<and>
      replay_len s2 = min (num_inserted s2) (max_len s2) \<and>
      replay_len s2 \<le> max_len s2)"
proof (intro conjI impI)
  assume "ExperienceReplay_init nb_env' batch_size' rollout_len' max_len' = Inr s0 \<and>
    nb_env' \<le> max_len' \<and> list_all (step_fits nb_env') steps"
  then have init: "ExperienceReplay_init nb_env' batch_size' rollout_len' max_len' = Inr s0"
    and cap: "nb_env' \<le> max_len'" and fits: "list_all (step_fits nb_env') steps"
    by simp_all
  from init have pos: "0 < nb_env'"
    by (auto simp: ExperienceReplay_init_def split: if_splits)
  from init pos have s0: "arrays s0 = [(''rewards'', np_empty max_len'), (''terminals'', np_empty max_len')]"
    "nb_env s0 = nb_env'" "max_len s0 = max_len' div nb_env'" "current_index s0 = 0"
    "num_inserted s0 = 0"
    by (auto simp: ExperienceReplay_init_def)
  have C: "0 < max_len s0"
    using cap pos by (simp add: s0 div_greater_zero_iff)
  have ok: "arrays_ok (max_len s0) (arrays s0)"
    by (auto simp: arrays_ok_def s0 np_empty_def split: if_splits)
  from replay_write_envs_ok [OF ok] C fits s0
  obtain A where "replay_write_envs steps s0 =
               (s0\<lparr>arrays := A,
                  current_index := (current_index s0 + length steps) mod max_len s0,
                  num_inserted := num_inserted s0 + length steps\<rparr>, None)"
    by auto
  then show "\<exists>s. replay_write_envs steps s0 = (s, None) \<and>
           max_len s = max_len' div nb_env' \<and> 0 < max_len s \<and>
           num_inserted s = length steps \<and>
           current_index s = length steps mod max_len s \<and>
           current_index s < max_len s \<and>
           replay_len s = min (length steps) (max_len s) \<and>
           replay_len s \<le> max_len s"
    using C by (simp add: s0 replay_len_def)
next
  assume "replay_write_env obs rewards terminals s1 = (s2, None)"
  from replay_write_env_counts [OF this]
  have facts: "0 < max_len s1" "num_inserted s2 = num_inserted s1 + 1"
    "current_index s2 = (current_index s1 + 1) mod max_len s1" "max_len s2 = max_len s1"
    by simp_all
  show "0 < max_len s1" "max_len s2 = max_len s1" "num_inserted s2 = num_inserted s1 + 1"
    "current_index s2 = (current_index s1 + 1) mod max_len s1"
    by (rule facts)+
  show "current_index s2 < max_len s2"
    using facts by simp
  show "replay_len s2 = min (num_inserted s2) (max_len s2)" "replay_len s2 \<le> max_len s2"
    by (simp_all add: replay_len_def)
qed

theorem replay_write_env_cursor_and_length_witness:
  "ExperienceReplay_init 1 1 1 2 =
     Inr \<lparr>arrays = [(''rewards'', [None, None]), (''terminals'', [None, None])],
          nb_env = 1, max_len = 2, batch_size = 1, rollout_len = 1, min_length = 100,
          cached_rollout = [], max_cache = 5, current_index = 0, num_inserted = 0,
          printed = []\<rparr> \<and>
   list_all (step_fits 1) [([(''x'', [7])], [1], [0]), ([(''x'', [8])], [2], [0]),
                           ([(''x'', [9])], [3], [1])] \<and>
   replay_write_envs [([(''x'', [7])], [1], [0]), ([(''x'', [8])], [2], [0]),
                      ([(''x'', [9])], [3], [1])]
     \<lparr>arrays = [(''rewards'', [None, None]), (''terminals'', [None, None])],
      nb_env = 1, max_len = 2, batch_size = 1, rollout_len = 1, min_length = 100,
      cached_rollout = [], max_cache = 5, current_index = 0, num_inserted = 0,
      printed = []\<rparr> =
     (\<lparr>arrays = [(''rewards'', [Some [3], Some [2]]), (''terminals'', [Some [0], Some [1]]),
                 (''obs-x'', [Some [9], Some [8]])],
       nb_env = 1, max_len = 2, batch_size = 1, rollout_len = 1, min_length = 100,
       cached_rollout = [], max_cache = 5, current_index = 1, num_inserted = 3,
       printed = []\<rparr>, None) \<and>
   replay_len
     \<lparr>arrays = [(''rewards'', [Some [3], Some [2]]), (''terminals'', [Some [0], Some [1]]),
                 (''obs-x'', [Some [9], Some [8]])],
       nb_env = 1, max_len = 2, batch_size = 1, rollout_len = 1, min_length = 100,
       cached_rollout = [], max_cache = 5, current_index = 1, num_inserted = 3,
       printed = []\<rparr> = 2 \<and>
   replay_write_env [(''x'', [7])] [1] [0]
     \<lparr>arrays = [(''rewards'', [None, None]), (''terminals'', [None, None])],
      nb_env = 1, max_len = 2, batch_size = 1, rollout_len = 1, min_length = 100,
      cached_rollout = [], max_cache = 5, current_index = 0, num_inserted = 0,
      printed = []\<rparr> =
     (\<lparr>arrays = [(''rewards'', [Some [1], None]), (''terminals'', [Some [1], None]),
                (''obs-x'', [Some [7], None])],
      nb_env = 1, max_len = 2, batch_size = 1, rollout_len = 1, min_length = 100,
      cached_rollout = [], max_cache = 5, current_index = 1, num_inserted = 1,
      printed = []\<rparr>, None) \<and>
   num_inserted
     \<lparr>arrays = [(''rewards'', [Some [1], None]), (''terminals'', [Some [1], None]),
                (''obs-x'', [Some [7], None])],
      nb_env = 1, max_len = 2, batch_size = 1, rollout_len = 1, min_length = 100,
      cached_rollout = [], max_cache = 5, current_index = 1, num_inserted = 1,
      printed = []\<rparr> = 0 + 1 \<and>
   current_index
     \<lparr>arrays = [(''rewards'', [Some [1], None]), (''terminals'', [Some [1], None]),
                (''obs-x'', [Some [7], None])],
      nb_env = 1, max_len = 2, batch_size = 1, rollout_len = 1, min_length = 100,
      cached_rollout = [], max_cache = 5, current_index = 1, num_inserted = 1,
      printed = []\<rparr> = (0 + 1) mod 2"
proof -
  have init: "ExperienceReplay_init 1 1 1 2 =
     Inr \<lparr>arrays = [(''rewards'', [None, None]), (''terminals'', [None, None])],
          nb_env = 1, max_len = 2, batch_size = 1, rollout_len = 1, min_length = 100,
          cached_rollout = [], max_cache = 5, current_index = 0, num_inserted = 0,
          printed = []\<rparr>"
    by (simp add: ExperienceReplay_init_def np_empty_def numeral_2_eq_2)
  have fits: "list_all (step_fits 1) [([(''x'', [7])], [1], [0]), ([(''x'', [8])], [2], [0]),
                           ([(''x'', [9])], [3], [1])]"
    by (simp add: step_fits_def row_fits_def)
  have run: "replay_write_envs [([(''x'', [7])], [1], [0]), ([(''x'', [8])], [2], [0]),
                      ([(''x'', [9])], [3], [1])]
     \<lparr>arrays = [(''rewards'', [None, None]), (''terminals'', [None, None])],
      nb_env = 1, max_len = 2, batch_size = 1, rollout_len = 1, min_length = 100,
      cached_rollout = [], max_cache = 5, current_index = 0, num_inserted = 0,
      printed = []\<rparr> =
     (\<lparr>arrays = [(''rewards'', [Some [3], Some [2]]), (''terminals'', [Some [0], Some [1]]),
                 (''obs-x'', [Some [9], Some [8]])],
       nb_env = 1, max_len = 2, batch_size = 1, rollout_len = 1, min_length = 100,
       cached_rollout = [], max_cache = 5, current_index = 1, num_inserted = 3,
       printed = []\<rparr>, None)"
    by (simp add: replay_write_envs_def replay_write_env_def write_obs_item_def
        create_if_missing_def store_row_def set_row_def advance_def np_empty_def
        numeral_2_eq_2)
  have "1 \<le> (2::nat)" by simp
  with init fits
    replay_write_env_cursor_and_length
      [of 1 1 1 2
          "\<lparr>arrays = [(''rewards'', [None, None]), (''terminals'', [None, None])],
            nb_env = 1, max_len = 2, batch_size = 1, rollout_len = 1, min_length = 100,
            cached_rollout = [], max_cache = 5, current_index = 0, num_inserted = 0,
            printed = []\<rparr>"
          "[([(''x'', [7])], [1], [0]), ([(''x'', [8])], [2], [0]),
            ([(''x'', [9])], [3], [1])]"]
  obtain s where s:
    "replay_write_envs [([(''x'', [7])], [1], [0]), ([(''x'', [8])], [2], [0]),
                      ([(''x'', [9])], [3], [1])]
       \<lparr>arrays = [(''rewards'', [None, None]), (''terminals'', [None, None])],
         nb_env = 1, max_len = 2, batch_size = 1, rollout_len = 1, min_length = 100,
         cached_rollout = [], max_cache = 5, current_index = 0, num_inserted = 0,
         printed = []\<rparr> = (s, None)"
    "max_len s = 2 div 1"
    "replay_len s =
       min (length [([(''x'', [7::real])], [1::real], [0::real]), ([(''x'', [8])], [2], [0]),
                    ([(''x'', [9])], [3], [1])]) (max_len s)"
    by blast
  from s(1) run have "s = \<lparr>arrays = [(''rewards'', [Some [3], Some [2]]), (''terminals'', [Some [0], Some [1]]),
                 (''obs-x'', [Some [9], Some [8]])],
       nb_env = 1, max_len = 2, batch_size = 1, rollout_len = 1, min_length = 100,
       cached_rollout = [], max_cache = 5, current_index = 1, num_inserted = 3,
       printed = []\<rparr>"
    by simp
  with s(2,3) have "replay_len
     \<lparr>arrays = [(''rewards'', [Some [3], Some [2]]), (''terminals'', [Some [0], Some [1]]),
                 (''obs-x'', [Some [9], Some [8]])],
       nb_env = 1, max_len = 2, batch_size = 1, rollout_len = 1, min_length = 100,
       cached_rollout = [], max_cache = 5, current_index = 1, num_inserted = 3,
       printed = []\<rparr> = 2"
    by simp
  note first = this
  have one: "replay_write_env [(''x'', [7])] [1] [0]
     \<lparr>arrays = [(''rewards'', [None, None]), (''terminals'', [None, None])],
      nb_env = 1, max_len = 2, batch_size = 1, rollout_len = 1, min_length = 100,
      cached_rollout = [], max_cache = 5, current_index = 0, num_inserted = 0,
      printed = []\<rparr> =
     (\<lparr>arrays = [(''rewards'', [Some [1], None]), (''terminals'', [Some [1], None]),
                (''obs-x'', [Some [7], None])],
      nb_env = 1, max_len = 2, batch_size = 1, rollout_len = 1, min_length = 100,
      cached_rollout = [], max_cache = 5, current_index = 1, num_inserted = 1,
      printed = []\<rparr>, None)"
    by (simp add: replay_write_env_def write_obs_item_def create_if_missing_def store_row_def
        set_row_def advance_def np_empty_def numeral_2_eq_2)
  from replay_write_env_cursor_and_length
      [of 1 1 1 2
          "\<lparr>arrays = [(''rewards'', [None, None]), (''terminals'', [None, None])],
            nb_env = 1, max_len = 2, batch_size = 1, rollout_len = 1, min_length = 100,
            cached_rollout = [], max_cache = 5, current_index = 0, num_inserted = 0,
            printed = []\<rparr>"
          "[]" "[(''x'', [7])]" "[1]" "[0]"
          "\<lparr>arrays = [(''rewards'', [None, None]), (''terminals'', [None, None])],
      nb_env = 1, max_len = 2, batch_size = 1, rollout_len = 1, min_length = 100,
      cached_rollout = [], max_cache = 5, current_index = 0, num_inserted = 0,
      printed = []\<rparr>"
          "\<lparr>arrays = [(''rewards'', [Some [1], None]), (''terminals'', [Some [1], None]),
                (''obs-x'', [Some [7], None])],
      nb_env = 1, max_len = 2, batch_size = 1, rollout_len = 1, min_length = 100,
      cached_rollout = [], max_cache = 5, current_index = 1, num_inserted = 1,
      printed = []\<rparr>"] one
  have "num_inserted
     \<lparr>arrays = [(''rewards'', [Some [1], None]), (''terminals'', [Some [1], None]),
                (''obs-x'', [Some [7], None])],
      nb_env = 1, max_len = 2, batch_size = 1, rollout_len = 1, min_length = 100,
      cached_rollout = [], max_cache = 5, current_index = 1, num_inserted = 1,
      printed = []\<rparr> = 0 + 1 \<and>
   current_index
     \<lparr>arrays = [(''rewards'', [Some [1], None]), (''terminals'', [Some [1], None]),
                (''obs-x'', [Some [7], None])],
      nb_env = 1, max_len = 2, batch_size = 1, rollout_len = 1, min_length = 100,
      cached_rollout = [], max_cache = 5, current_index = 1, num_inserted = 1,
      printed = []\<rparr> = (0 + 1) mod 2"
    by simp
  with init fits run first one show ?thesis by blast
qed

subsection \<open>Sampling\<close>

lemma get_rows_in_range:
  "list_all (\<lambda>i. 0 \<le> i \<and> i < int (length arr)) inds \<Longrightarrow>
   \<exists>rows. get_rows arr inds = Inr rows \<and> length rows = length inds"
  by (induction inds) (auto simp: get_row_def)

lemma start_indexes_in_range:
  assumes "0 < max_ind s"
  shows "\<exists>starts. start_indexes s raw = Inr starts \<and> length starts = batch_size s \<and>
                   list_all (\<lambda>st. 0 \<le> st \<and> st < max_ind s) starts"
proof -
  have "int (raw j mod nat (max_ind s)) < max_ind s" for j
  proof -
    have "raw j mod nat (max_ind s) < nat (max_ind s)"
      using assms by simp
    then show ?thesis
      by (simp add: zless_nat_eq_int_zless)
  qed
  with assms show ?thesis
    by (simp add: start_indexes_def randint_def list_all_iff)
qed

lemma flat_indexes_in_range:
  assumes "list_all (\<lambda>st. lo \<le> st \<and> st + len \<le> hi) starts"
  shows "list_all (\<lambda>i. lo \<le> i \<and> i < hi) (flat_indexes starts (map (\<lambda>st. st + len) starts))"
  using assms by (induction starts) (auto simp: flat_indexes_def list_all_iff)

text \<open>
  C5. When the cache holds more than \<open>rollout_len + 2\<close> rows, the start indices are
  drawn from \<open>[0, L - rollout_len - 2)\<close> for \<open>L = len(self)\<close>, one per sample of the
  batch; so every end index is at most \<open>L - 2\<close>, every index of a window and every
  index \<open>end + 1\<close> of the next observation lies in \<open>[0, L)\<close>, and reading the rows at
  \<open>end + 1\<close> from an array of at least \<open>L\<close> rows does not raise.
\<close>

theorem replay_sampled_indexes_in_range:
  assumes "rollout_len s + 2 < replay_len s"
  shows "\<exists>starts.
           start_indexes s raw = Inr starts \<and> length starts = batch_size s \<and>
           list_all (\<lambda>st. 0 \<le> st \<and> st < int (replay_len s) - int (rollout_len s) - 2) starts \<and>
           list_all (\<lambda>e. e \<le> int (replay_len s) - 2 \<and> 0 \<le> e + 1 \<and> e + 1 < int (replay_len s))
             (end_indexes s starts) \<and>
           list_all (\<lambda>i. 0 \<le> i \<and> i < int (replay_len s))
             (flat_indexes starts (end_indexes s starts)) \<and>
           (replay_len s \<le> length arr \<longrightarrow>
              (\<exists>rows. get_rows arr (map (\<lambda>e. e + 1) (end_indexes s starts)) = Inr rows \<and>
                      length rows = batch_size s))"
proof -
  have pos: "0 < max_ind s"
    using assms by (simp add: max_ind_def)
  from start_indexes_in_range [OF pos, of raw]
  obtain starts where starts: "start_indexes s raw = Inr starts" "length starts = batch_size s"
    "list_all (\<lambda>st. 0 \<le> st \<and> st < max_ind s) starts"
    by blast
  have range: "list_all (\<lambda>st. 0 \<le> st \<and> st < int (replay_len s) - int (rollout_len s) - 2) starts"
    using starts(3) by (auto simp: max_ind_def list_all_iff)
  have ends: "list_all (\<lambda>e. e \<le> int (replay_len s) - 2 \<and> 0 \<le> e + 1 \<and> e + 1 < int (replay_len s))
             (end_indexes s starts)"
    using range by (auto simp: end_indexes_def list_all_iff)
  have "list_all (\<lambda>st. 0 \<le> st \<and> st + int (rollout_len s) \<le> int (replay_len s)) starts"
    using range by (auto simp: list_all_iff)
  then have flat: "list_all (\<lambda>i. 0 \<le> i \<and> i < int (replay_len s))
             (flat_indexes starts (end_indexes s starts))"
    unfolding end_indexes_def by (rule flat_indexes_in_range)
  have rows: "\<exists>rows. get_rows arr (map (\<lambda>e. e + 1) (end_indexes s starts)) = Inr rows \<and>
                      length rows = batch_size s"
    if "replay_len s \<le> length arr"
  proof -
    have "list_all (\<lambda>i. 0 \<le> i \<and> i < int (length arr)) (map (\<lambda>e. e + 1) (end_indexes s starts))"
      using ends that by (auto simp: list_all_iff)
    from get_rows_in_range [OF this] starts(2) show ?thesis
      by (simp add: end_indexes_def)
  qed
  from starts(1,2) range ends flat rows show ?thesis by blast
qed

theorem replay_sampled_indexes_in_range_witness:
  "rollout_len
     \<lparr>arrays = [(''rewards'', replicate 8 (Some [1])), (''terminals'', replicate 8 (Some [1]))],
      nb_env = 1, max_len = 8, batch_size = 2, rollout_len = 3, min_length = 100,
      cached_rollout = [], max_cache = 5, current_index = 5, num_inserted = 101,
      printed = []\<rparr> + 2 <
   replay_len
     \<lparr>arrays = [(''rewards'', replicate 8 (Some [1])), (''terminals'', replicate 8 (Some [1]))],
      nb_env = 1, max_len = 8, batch_size = 2, rollout_len = 3, min_length = 100,
      cached_rollout = [], max_cache = 5, current_index = 5, num_inserted = 101,
      printed = []\<rparr> \<and>
   start_indexes
     \<lparr>arrays = [(''rewards'', replicate 8 (Some [1])), (''terminals'', replicate 8 (Some [1]))],
      nb_env = 1, max_len = 8, batch_size = 2, rollout_len = 3, min_length = 100,
      cached_rollout = [], max_cache = 5, current_index = 5, num_inserted = 101,
      printed = []\<rparr> (\<lambda>j. 5 + 6 * j) = Inr [2, 2] \<and>
   list_all (\<lambda>e. e \<le> 6 \<and> 0 \<le> e + 1 \<and> e + 1 < 8)
     (end_indexes
        \<lparr>arrays = [(''rewards'', replicate 8 (Some [1])), (''terminals'', replicate 8 (Some [1]))],
      nb_env = 1, max_len = 8, batch_size = 2, rollout_len = 3, min_length = 100,
      cached_rollout = [], max_cache = 5, current_index = 5, num_inserted = 101,
      printed = []\<rparr> [2, 2]) \<and>
   list_all (\<lambda>i. 0 \<le> i \<and> i < 8)
     (flat_indexes [2, 2]
        (end_indexes
           \<lparr>arrays = [(''rewards'', replicate 8 (Some [1])), (''terminals'', replicate 8 (Some [1]))],
      nb_env = 1, max_len = 8, batch_size = 2, rollout_len = 3, min_length = 100,
      cached_rollout = [], max_cache = 5, current_index = 5, num_inserted = 101,
      printed = []\<rparr> [2, 2])) \<and>
   (\<exists>rows. get_rows (replicate 8 (Some [1]))
             (map (\<lambda>e. e + 1)
                (end_indexes
                   \<lparr>arrays = [(''rewards'', replicate 8 (Some [1])), (''terminals'', replicate 8 (Some [1]))],
      nb_env = 1, max_len = 8, batch_size = 2, rollout_len = 3, min_length = 100,
      cached_rollout = [], max_cache = 5, current_index = 5, num_inserted = 101,
      printed = []\<rparr> [2, 2])) = Inr rows \<and>
           length rows = 2)"
proof -
  define S where "S =
     \<lparr>arrays = [(''rewards'', replicate 8 (Some [1::real])),
                 (''terminals'', replicate 8 (Some [1::real]))],
      nb_env = 1, max_len = 8, batch_size = 2, rollout_len = 3, min_length = 100,
      cached_rollout = [], max_cache = 5, current_index = 5, num_inserted = 101,
      printed = []\<rparr>"
  have hyp: "rollout_len S + 2 < replay_len S"
    by (simp add: S_def replay_len_def)
  have st: "start_indexes S (\<lambda>j. 5 + 6 * j) = Inr [2, 2]"
    by (simp add: S_def start_indexes_def randint_def max_ind_def replay_len_def
        numeral_2_eq_2)
  have len: "int (replay_len S) = 8" "batch_size S = 2"
    by (simp_all add: S_def replay_len_def)
  have arr: "replay_len S \<le> length (replicate 8 (Some [1::real]))"
    by (simp add: S_def replay_len_def)
  from replay_sampled_indexes_in_range
         [OF hyp, of "\<lambda>j. 5 + 6 * j" "replicate 8 (Some [1::real])"] arr
  obtain starts where starts: "start_indexes S (\<lambda>j. 5 + 6 * j) = Inr starts"
    "list_all (\<lambda>e. e \<le> int (replay_len S) - 2 \<and> 0 \<le> e + 1 \<and> e + 1 < int (replay_len S))
       (end_indexes S starts)"
    "list_all (\<lambda>i. 0 \<le> i \<and> i < int (replay_len S))
       (flat_indexes starts (end_indexes S starts))"
    "\<exists>rows. get_rows (replicate 8 (Some [1::real]))
              (map (\<lambda>e. e + 1) (end_indexes S starts)) = Inr rows \<and>
            length rows = batch_size S"
    by blast
  from starts(1) st have "starts = [2, 2]" by simp
  with starts(2,3,4) len
  have "list_all (\<lambda>e. e \<le> 6 \<and> 0 \<le> e + 1 \<and> e + 1 < 8) (end_indexes S [2, 2])"
    "list_all (\<lambda>i. 0 \<le> i \<and> i < 8) (flat_indexes [2, 2] (end_indexes S [2, 2]))"
    "\<exists>rows. get_rows (replicate 8 (Some [1::real]))
              (map (\<lambda>e. e + 1) (end_indexes S [2, 2])) = Inr rows \<and>
            length rows = 2"
    by simp_all
  with hyp st show ?thesis
    unfolding S_def by blast
qed

subsection \<open>The pre-fetch queue\<close>

text \<open>
  C6 does not hold of the code. \<open>read\<close> serves a batch from the pre-fetch queue only
  when the queue holds more than one: with exactly one ready batch it prints
  \<open>Cache miss\<close>, samples synchronously and leaves the ready batch in the queue.
\<close>

theorem read_single_cached_batch_is_a_miss:
  assumes "cached_rollout s = [b]"
  shows "read s raw_start raw_env =
           (read_sync (s\<lparr>printed := printed s @ [''Cache miss'']\<rparr>) raw_start raw_env,
            s\<lparr>printed := printed s @ [''Cache miss'']\<rparr>) \<and>
         cached_rollout (snd (read s raw_start raw_env)) = [b]"
  using assms by (simp add: read_def)

theorem read_single_cached_batch_is_a_miss_witness:
  "cached_rollout
     \<lparr>arrays = [(''rewards'', [None, None]), (''terminals'', [None, None])],
      nb_env = 1, max_len = 2, batch_size = 1, rollout_len = 1, min_length = 100,
      cached_rollout = [[(''rewards'', Windows [[Some 1]])]], max_cache = 5,
      current_index = 0, num_inserted = 0, printed = []\<rparr> =
     [[(''rewards'', Windows [[Some 1]])]] \<and>
   read
     \<lparr>arrays = [(''rewards'', [None, None]), (''terminals'', [None, None])],
      nb_env = 1, max_len = 2, batch_size = 1, rollout_len = 1, min_length = 100,
      cached_rollout = [[(''rewards'', Windows [[Some 1]])]], max_cache = 5,
      current_index = 0, num_inserted = 0, printed = []\<rparr> (\<lambda>j. 0) (\<lambda>j. 0) =
     (Inl ValueError,
      \<lparr>arrays = [(''rewards'', [None, None]), (''terminals'', [None, None])],
       nb_env = 1, max_len = 2, batch_size = 1, rollout_len = 1, min_length = 100,
       cached_rollout = [[(''rewards'', Windows [[Some 1]])]], max_cache = 5,
       current_index = 0, num_inserted = 0, printed = [''Cache miss'']\<rparr>)"
  using read_single_cached_batch_is_a_miss
    [of "\<lparr>arrays = [(''rewards'', [None, None]), (''terminals'', [None, None])],
      nb_env = 1, max_len = 2, batch_size = 1, rollout_len = 1, min_length = 100,
      cached_rollout = [[(''rewards'', Windows [[Some 1]])]], max_cache = 5,
      current_index = 0, num_inserted = 0, printed = []\<rparr>"
      "[(''rewards'', Windows [[Some 1]])]" "\<lambda>j. 0" "\<lambda>j. 0"]
  by (simp add: read_sync_def start_indexes_def randint_def max_ind_def replay_len_def)

subsection \<open>Undeclared fields\<close>




section \<open>Properties of the learner container\<close>

lemma fold_update_keys:
  "fst ` set (fold (\<lambda>w gs. AList.update w (g w) gs) ws gs0) = fst ` set gs0 \<union> set ws"
  by (induction ws arbitrary: gs0) (auto simp: dom_update)

lemma fold_update_distinct:
  "distinct (map fst gs0) \<Longrightarrow>
   distinct (map fst (fold (\<lambda>w gs. AList.update w (g w) gs) ws gs0))"
  by (induction ws arbitrary: gs0) (auto simp: distinct_update)

lemma build_groups_keys:
  "distinct (map fst (build_groups rank learner_ranks worker_ranks)) \<and>
   fst ` set (build_groups rank learner_ranks worker_ranks) =
     (if rank \<in> set learner_ranks then set worker_ranks else {})"
proof -
  define inner where "inner = (\<lambda>learner_rank gs.
             fold (\<lambda>worker_rank gs'.
                     if learner_rank = rank
                     then AList.update worker_rank (learner_rank, worker_rank) gs'
                     else gs')
                  worker_ranks gs)"
  have skip: "inner l gs = gs" if "l \<noteq> rank" for l gs
    using that unfolding inner_def by (induction worker_ranks arbitrary: gs) auto
  have hit: "inner rank gs = fold (\<lambda>w gs'. AList.update w (rank, w) gs') worker_ranks gs" for gs
    unfolding inner_def by simp
  have "distinct (map fst (fold inner ls gs0)) \<and>
        fst ` set (fold inner ls gs0) =
          fst ` set gs0 \<union> (if rank \<in> set ls then set worker_ranks else {})"
    if "distinct (map fst gs0)" for ls gs0
    using that
  proof (induction ls arbitrary: gs0)
    case Nil
    then show ?case by simp
  next
    case (Cons l ls)
    show ?case
    proof (cases "l = rank")
      case True
      have d: "distinct (map fst (inner rank gs0))"
        unfolding hit using Cons.prems by (rule fold_update_distinct)
      have k: "fst ` set (inner rank gs0) = fst ` set gs0 \<union> set worker_ranks"
        unfolding hit by (rule fold_update_keys)
      from Cons.IH [OF d] k True show ?thesis by auto
    next
      case False
      with Cons show ?thesis by (simp add: skip)
    qed
  qed
  from this [of "[]" learner_ranks] show ?thesis
    by (simp add: build_groups_def inner_def)
qed

lemma length_build_groups:
  "length (build_groups rank learner_ranks worker_ranks) =
     (if rank \<in> set learner_ranks then card (set worker_ranks) else 0)"
proof -
  let ?gs = "build_groups rank learner_ranks worker_ranks"
  have "length ?gs = length (map fst ?gs)" by simp
  also have "\<dots> = card (set (map fst ?gs))"
    using build_groups_keys [of rank learner_ranks worker_ranks]
    by (simp only: distinct_card)
  also have "\<dots> = (if rank \<in> set learner_ranks then card (set worker_ranks) else 0)"
    using build_groups_keys [of rank learner_ranks worker_ranks] by simp
  finally show ?thesis .
qed

text \<open>
  C9. The constructor always yields a container. Its worker count is the number of
  distinct worker ranks when the learner's own rank is among the learner ranks (and zero
  otherwise). If the configured number of learn batches exceeds the worker count, one
  warning is logged and \<open>nb_learn_batch\<close> becomes the worker count; if not, nothing is
  logged and \<open>nb_learn_batch\<close> is the configured number.
\<close>

theorem learner_batch_count_capped:
  "nb_worker (Learner_init args_nb_env args_nb_learn_batch rank learner_ranks worker_ranks) =
     int (if rank \<in> set learner_ranks then card (set worker_ranks) else 0) \<and>
   (args_nb_learn_batch >
      nb_worker (Learner_init args_nb_env args_nb_learn_batch rank learner_ranks worker_ranks) \<longrightarrow>
      nb_learn_batch (Learner_init args_nb_env args_nb_learn_batch rank learner_ranks worker_ranks) =
        nb_worker (Learner_init args_nb_env args_nb_learn_batch rank learner_ranks worker_ranks) \<and>
      warnings (Learner_init args_nb_env args_nb_learn_batch rank learner_ranks worker_ranks) =
        [''More learn batches than workers, reducing learn batches to '' @
         str_nat (if rank \<in> set learner_ranks then card (set worker_ranks) else 0)]) \<and>
   (\<not> args_nb_learn_batch >
      nb_worker (Learner_init args_nb_env args_nb_learn_batch rank learner_ranks worker_ranks) \<longrightarrow>
      nb_learn_batch (Learner_init args_nb_env args_nb_learn_batch rank learner_ranks worker_ranks) =
        args_nb_learn_batch \<and>
      warnings (Learner_init args_nb_env args_nb_learn_batch rank learner_ranks worker_ranks) = [])"
proof -
  let ?n = "if rank \<in> set learner_ranks then card (set worker_ranks) else 0"
  have workers: "length (build_groups rank learner_ranks worker_ranks) = ?n"
    by (rule length_build_groups)
  show ?thesis
  proof (cases "args_nb_learn_batch > int ?n")
    case True
    then show ?thesis
      by (simp add: Learner_init_def Let_def workers del: str_nat.simps)
  next
    case False
    then show ?thesis
      by (simp add: Learner_init_def Let_def workers del: str_nat.simps)
  qed
qed

theorem learner_batch_count_capped_witness:
  "nb_worker (Learner_init 4 5 0 [0] [1, 2, 3]) = 3 \<and>
   (5::int) > nb_worker (Learner_init 4 5 0 [0] [1, 2, 3]) \<and>
   nb_learn_batch (Learner_init 4 5 0 [0] [1, 2, 3]) = 3 \<and>
   warnings (Learner_init 4 5 0 [0] [1, 2, 3]) =
     [''More learn batches than workers, reducing learn batches to 3''] \<and>
   nb_worker (Learner_init 4 2 0 [0] [1, 2, 3]) = 3 \<and>
   nb_learn_batch (Learner_init 4 2 0 [0] [1, 2, 3]) = 2 \<and>
   warnings (Learner_init 4 2 0 [0] [1, 2, 3]) = []"
proof -
  note inst = learner_batch_count_capped [of 4 5 0 "[0]" "[1, 2, 3]"]
  note inst2 = learner_batch_count_capped [of 4 2 0 "[0]" "[1, 2, 3]"]
  have count: "(if (0::int) \<in> set [0] then card (set [1, 2, 3 :: int]) else 0) = 3"
    by simp
  have str: "str_nat 3 = ''3''"
    by (subst str_nat.simps) simp
  from inst have w: "nb_worker (Learner_init 4 5 0 [0] [1, 2, 3]) = 3"
    unfolding count by simp
  then have gt: "(5::int) > nb_worker (Learner_init 4 5 0 [0] [1, 2, 3])"
    by simp
  from inst gt
  have "nb_learn_batch (Learner_init 4 5 0 [0] [1, 2, 3]) =
          nb_worker (Learner_init 4 5 0 [0] [1, 2, 3]) \<and>
        warnings (Learner_init 4 5 0 [0] [1, 2, 3]) =
          [''More learn batches than workers, reducing learn batches to '' @
           str_nat (if (0::int) \<in> set [0] then card (set [1, 2, 3 :: int]) else 0)]"
    by blast
  then have capped: "nb_learn_batch (Learner_init 4 5 0 [0] [1, 2, 3]) = 3 \<and>
        warnings (Learner_init 4 5 0 [0] [1, 2, 3]) =
          [''More learn batches than workers, reducing learn batches to 3'']"
    unfolding count str w by simp
  from inst2 have w2: "nb_worker (Learner_init 4 2 0 [0] [1, 2, 3]) = 3"
    unfolding count by simp
  then have le: "\<not> (2::int) > nb_worker (Learner_init 4 2 0 [0] [1, 2, 3])"
    by simp
  from inst2 le
  have kept: "nb_learn_batch (Learner_init 4 2 0 [0] [1, 2, 3]) = 2 \<and>
        warnings (Learner_init 4 2 0 [0] [1, 2, 3]) = []"
    by blast
  from w gt capped w2 kept show ?thesis by blast
qed

end
